theory Spec2Isabelle
  imports Main "HOL-Library.Multiset"
begin

section \<open>The declaration tree as the walker reads it\<close>

text \<open>
  The walker of \<^verbatim>\<open>SymbolGraphASTWalker.cpp\<close> only holds pointers into the compiler's
  declaration tree and asks it questions. Pointers are addresses; the questions are the
  accessor functions of the record \<open>AST\<close>. A null pointer is \<open>None\<close>.
\<close>

datatype ModuleDecl = ModulePtr nat
datatype Decl = DeclPtr nat
datatype DeclContext = ContextPtr nat
datatype Type = TypePtr nat
datatype ProtocolCompositionType = CompositionPtr nat

text \<open>
  Modelled from the spec: the declaration kinds are the recordable ones that the switch of
  \<^verbatim>\<open>walkToDeclPre\<close> names, and "other". The header with the full kind table is absent;
  "other" is split in two because the source also casts to \<^verbatim>\<open>ValueDecl\<close>.
\<close>

datatype DeclKind =
    Class | Struct | Enum | EnumElement | Protocol | Constructor | Func | Var
  | Subscript | TypeAlias | AssociatedType | Extension
  | OtherValueDecl | OtherDecl

fun isNominalTypeDecl :: "DeclKind \<Rightarrow> bool" where
  "isNominalTypeDecl Class = True"
| "isNominalTypeDecl Struct = True"
| "isNominalTypeDecl Enum = True"
| "isNominalTypeDecl Protocol = True"
| "isNominalTypeDecl _ = False"

fun isValueDecl :: "DeclKind \<Rightarrow> bool" where
  "isValueDecl Extension = False"
| "isValueDecl OtherDecl = False"
| "isValueDecl _ = True"

datatype PlatformKind = none | NamedPlatform string

datatype AvailableVersionComparison =
  Available | Unavailable | PotentiallyUnavailable | Obsoleted

record AvailableAttr =
  Platform :: PlatformKind
  getVersionAvailability :: AvailableVersionComparison

record AST =
  getNameStr :: "ModuleDecl \<Rightarrow> string"
  isNonSwiftModule :: "ModuleDecl \<Rightarrow> bool"
  getKind :: "Decl \<Rightarrow> DeclKind"
  getModuleContext :: "Decl \<Rightarrow> ModuleDecl"
  getDeclContext :: "Decl \<Rightarrow> DeclContext option"
  getParentModule :: "DeclContext \<Rightarrow> ModuleDecl"
  getAsDecl :: "DeclContext \<Rightarrow> Decl option"
  getParent :: "DeclContext \<Rightarrow> DeclContext option"
  getExtendedNominal :: "Decl \<Rightarrow> Decl option"
  getInherited :: "Decl \<Rightarrow> Type option list"
  getUnavailable :: "Decl \<Rightarrow> AvailableAttr option"
  getAnyNominal :: "Type \<Rightarrow> Decl option"
  getAsProtocolCompositionType :: "Type \<Rightarrow> ProtocolCompositionType option"
  getMembers :: "ProtocolCompositionType \<Rightarrow> Type list"

text \<open>
  \<open>getInherited ast D\<close> lists, for each stated inherited entry of \<open>D\<close>, what
  \<^verbatim>\<open>getType()\<close> gives: \<open>None\<close> is the null type of an entry that did not resolve.
\<close>

datatype error = Abort | NullDereference

section \<open>Module identity\<close>

definition areModulesEqual :: "AST \<Rightarrow> ModuleDecl \<Rightarrow> ModuleDecl \<Rightarrow> bool \<Rightarrow> bool" where
  "areModulesEqual ast lhs rhs ignoreUnderlying =
     (getNameStr ast lhs = getNameStr ast rhs
      \<and> (ignoreUnderlying \<or> isNonSwiftModule ast lhs = isNonSwiftModule ast rhs))"

section \<open>Symbols, graphs and the walker's state\<close>

text \<open>
  A \<^verbatim>\<open>SymbolGraph *\<close> is either the address of the walker's own \<open>MainGraph\<close> or
  the address of a graph stored in \<open>ExtendedModuleGraphs\<close>. The string map holds one graph
  per key and never drops one, so such a pointer is given by its key.
\<close>

datatype GraphRef = MainGraphRef | ExtendedGraphRef string

datatype Symbol = Symbol GraphRef Decl "Decl option"

datatype RelationshipKind = ExtensionTo | ConformsTo

datatype Edge = Edge RelationshipKind Symbol Symbol

text \<open>
  Modelled from the spec: \<^verbatim>\<open>SymbolGraph.cpp\<close> is absent. A graph holds a node set and
  an edge set of (source, target, kind) triples; recording a node or an edge inserts it, and
  inserting one that is present changes nothing. A graph is constructed with no nodes and no
  edges. Recording synthesized member relationships is delegated to the external graph sink:
  the graph keeps the request.
\<close>

record SymbolGraph =
  GraphM :: ModuleDecl
  ExtendedModule :: "ModuleDecl option"
  DeclaringModule :: "ModuleDecl option"
  Nodes :: "Symbol set"
  Edges :: "Edge set"
  SynthesizedMemberRequests :: "Symbol list"

definition recordNode :: "Symbol \<Rightarrow> SymbolGraph \<Rightarrow> SymbolGraph" where
  "recordNode S g = g\<lparr>Nodes := insert S (Nodes g)\<rparr>"

definition recordEdge ::
  "Symbol \<Rightarrow> Symbol \<Rightarrow> RelationshipKind \<Rightarrow> Decl option \<Rightarrow> SymbolGraph \<Rightarrow> SymbolGraph" where
  "recordEdge Source Target Kind ConformanceExtension g =
     g\<lparr>Edges := insert (Edge Kind Source Target) (Edges g)\<rparr>"

definition recordConformanceSynthesizedMemberRelationships ::
  "Symbol \<Rightarrow> SymbolGraph \<Rightarrow> SymbolGraph" where
  "recordConformanceSynthesizedMemberRelationships S g =
     g\<lparr>SynthesizedMemberRequests := SynthesizedMemberRequests g @ [S]\<rparr>"

definition newSymbolGraph :: "ModuleDecl \<Rightarrow> ModuleDecl option \<Rightarrow> ModuleDecl option \<Rightarrow> SymbolGraph" where
  "newSymbolGraph Mo Extended Declaring =
     \<lparr>GraphM = Mo, ExtendedModule = Extended, DeclaringModule = Declaring,
      Nodes = {}, Edges = {}, SynthesizedMemberRequests = []\<rparr>"

text \<open>
  The per-graph visibility policy is an external collaborator: its two answers are
  parameters of the walk.
\<close>

record Visibility =
  isImplicitlyPrivate :: "GraphRef \<Rightarrow> Decl \<Rightarrow> bool"
  canIncludeDeclAsNode :: "GraphRef \<Rightarrow> Decl \<Rightarrow> bool"

record SymbolGraphASTWalker =
  EmitExtensionBlockSymbols :: bool
  M :: ModuleDecl
  ExportedImportedModules :: "ModuleDecl set"
  QualifiedExportedImports :: "(ModuleDecl \<times> Decl set) list"
  MainGraph :: SymbolGraph
  ExtendedModuleGraphs :: "string \<rightharpoonup> SymbolGraph"

fun getGraph :: "SymbolGraphASTWalker \<Rightarrow> GraphRef \<Rightarrow> SymbolGraph option" where
  "getGraph w MainGraphRef = Some (MainGraph w)"
| "getGraph w (ExtendedGraphRef k) = ExtendedModuleGraphs w k"

fun onGraph ::
  "GraphRef \<Rightarrow> (SymbolGraph \<Rightarrow> SymbolGraph) \<Rightarrow> SymbolGraphASTWalker \<Rightarrow> SymbolGraphASTWalker" where
  "onGraph MainGraphRef f w = w\<lparr>MainGraph := f (MainGraph w)\<rparr>"
| "onGraph (ExtendedGraphRef k) f w =
     (case ExtendedModuleGraphs w k of
        None \<Rightarrow> w
      | Some g \<Rightarrow> w\<lparr>ExtendedModuleGraphs := (ExtendedModuleGraphs w)(k \<mapsto> f g)\<rparr>)"

text \<open>
  A call that may run forever returns \<open>None\<close>; one that ends returns \<open>Some\<close> of an error
  (\<^verbatim>\<open>abort()\<close>, or the dereference of a null pointer) or of its value.
\<close>

definition bind_result ::
  "(error + 'a) option \<Rightarrow> ('a \<Rightarrow> (error + 'b) option) \<Rightarrow> (error + 'b) option" where
  "bind_result m f =
     (case m of None \<Rightarrow> None | Some (Inl e) \<Rightarrow> Some (Inl e) | Some (Inr v) \<Rightarrow> f v)"

section \<open>Re-export classifier\<close>

text \<open>
  \<^verbatim>\<open>MD->getModuleContext()\<close> of a module declaration is the module itself.
\<close>

definition isExportedImportedModule :: "AST \<Rightarrow> SymbolGraphASTWalker \<Rightarrow> ModuleDecl \<Rightarrow> bool" where
  "isExportedImportedModule ast w Mo =
     (\<exists>MD \<in> ExportedImportedModules w. areModulesEqual ast Mo MD False)"

definition isQualifiedExportedImport :: "SymbolGraphASTWalker \<Rightarrow> Decl \<Rightarrow> bool" where
  "isQualifiedExportedImport w D = list_ex (\<lambda>QI. D \<in> snd QI) (QualifiedExportedImports w)"

definition isFromExportedImportedModule :: "AST \<Rightarrow> SymbolGraphASTWalker \<Rightarrow> Decl \<Rightarrow> bool" where
  "isFromExportedImportedModule ast w D =
     (isQualifiedExportedImport w D \<or> isExportedImportedModule ast w (getModuleContext ast D))"

definition asExtensionDecl :: "AST \<Rightarrow> Decl option \<Rightarrow> Decl option" where
  "asExtensionDecl ast d =
     (case d of None \<Rightarrow> None
      | Some e \<Rightarrow> if getKind ast e = Extension then Some e else None)"

text \<open>
  The loop of \<^verbatim>\<open>isConsideredExportedImported\<close> (lines 311-317). It leaves an extension
  context only by finding its extended nominal: at an extension without one it spins.
\<close>

partial_function (option) findEnclosingExtendedNominal ::
  "AST \<Rightarrow> DeclContext option \<Rightarrow> Decl option \<Rightarrow> Decl option option" where
  "findEnclosingExtendedNominal ast DC ExtendedNominal =
     (case DC of
        None \<Rightarrow> Some ExtendedNominal
      | Some dc \<Rightarrow>
          if ExtendedNominal \<noteq> None then Some ExtendedNominal
          else (case asExtensionDecl ast (getAsDecl ast dc) of
                  Some ED \<Rightarrow> findEnclosingExtendedNominal ast DC (getExtendedNominal ast ED)
                | None \<Rightarrow> findEnclosingExtendedNominal ast (getParent ast dc) ExtendedNominal))"

definition isConsideredExportedImported ::
  "AST \<Rightarrow> SymbolGraphASTWalker \<Rightarrow> Decl \<Rightarrow> bool option" where
  "isConsideredExportedImported ast w D =
     (if isFromExportedImportedModule ast w D then Some True
      else let DC = getDeclContext ast D in
        if (case DC of None \<Rightarrow> False
            | Some dc \<Rightarrow>
                (case getAsDecl ast dc of None \<Rightarrow> False
                 | Some VD \<Rightarrow> isValueDecl (getKind ast VD)
                              \<and> isFromExportedImportedModule ast w VD))
        then Some True
        else (case findEnclosingExtendedNominal ast DC None of
                None \<Rightarrow> None
              | Some None \<Rightarrow> Some False
              | Some (Some ExtendedNominal) \<Rightarrow>
                  Some (isFromExportedImportedModule ast w ExtendedNominal)))"

section \<open>Graph registry\<close>

text \<open>
  The climb of \<^verbatim>\<open>getModuleSymbolGraph\<close> (lines 54-65): \<open>Mo\<close> is the local \<^verbatim>\<open>M\<close>,
  which shadows the walker's field there.
\<close>

partial_function (option) owningModule ::
  "AST \<Rightarrow> ModuleDecl \<Rightarrow> DeclContext option \<Rightarrow> Decl option
     \<Rightarrow> (error + ModuleDecl \<times> Decl option) option" where
  "owningModule ast Mo DC ExtendedNominal =
     (case DC of
        None \<Rightarrow> Some (Inr (Mo, ExtendedNominal))
      | Some dc \<Rightarrow>
          (case getAsDecl ast dc of
             None \<Rightarrow> owningModule ast (getParentModule ast dc) None ExtendedNominal
           | Some d \<Rightarrow>
               if isNominalTypeDecl (getKind ast d)
               then owningModule ast (getParentModule ast dc) (getDeclContext ast d) ExtendedNominal
               else if getKind ast d = Extension
               then (case getExtendedNominal ast d of
                       None \<Rightarrow> Some (Inl NullDereference)
                     | Some nominal \<Rightarrow>
                         owningModule ast (getParentModule ast dc) (getDeclContext ast nominal)
                           (if ExtendedNominal = None then Some nominal else ExtendedNominal))
               else owningModule ast (getParentModule ast dc) None ExtendedNominal))"

text \<open>The two local checks (lines 67-74) and the re-export checks (lines 78-86).\<close>

definition isLocalModule :: "AST \<Rightarrow> SymbolGraphASTWalker \<Rightarrow> ModuleDecl \<Rightarrow> bool" where
  "isLocalModule ast w Mo =
     (if areModulesEqual ast (M w) Mo True then True
      else (case DeclaringModule (MainGraph w) of
              None \<Rightarrow> False
            | Some declaring \<Rightarrow> areModulesEqual ast declaring Mo True))"

definition isReExported ::
  "AST \<Rightarrow> SymbolGraphASTWalker \<Rightarrow> Decl \<Rightarrow> ModuleDecl \<Rightarrow> Decl option \<Rightarrow> bool option" where
  "isReExported ast w D Mo ExtendedNominal =
     (if isExportedImportedModule ast w Mo \<or> isQualifiedExportedImport w D then Some True
      else (case ExtendedNominal of
              Some nominal \<Rightarrow> Some (isFromExportedImportedModule ast w nominal)
            | None \<Rightarrow> isConsideredExportedImported ast w D))"

definition findOrCreateGraph ::
  "AST \<Rightarrow> SymbolGraphASTWalker \<Rightarrow> ModuleDecl \<Rightarrow> GraphRef \<times> SymbolGraphASTWalker" where
  "findOrCreateGraph ast w Mo =
     (case ExtendedModuleGraphs w (getNameStr ast Mo) of
        Some Found \<Rightarrow> (ExtendedGraphRef (getNameStr ast Mo), w)
      | None \<Rightarrow>
          (ExtendedGraphRef (getNameStr ast Mo),
           w\<lparr>ExtendedModuleGraphs := (ExtendedModuleGraphs w)
               (getNameStr ast Mo \<mapsto>
                  newSymbolGraph (GraphM (MainGraph w)) (Some Mo)
                    (DeclaringModule (MainGraph w)))\<rparr>))"

definition getModuleSymbolGraph ::
  "AST \<Rightarrow> SymbolGraphASTWalker \<Rightarrow> Decl \<Rightarrow> (error + GraphRef \<times> SymbolGraphASTWalker) option" where
  "getModuleSymbolGraph ast w D =
     bind_result (owningModule ast (getModuleContext ast D) (getDeclContext ast D) None)
       (\<lambda>(Mo, ExtendedNominal).
          if isLocalModule ast w Mo then Some (Inr (MainGraphRef, w))
          else (case isReExported ast w D Mo ExtendedNominal of
                  None \<Rightarrow> None
                | Some True \<Rightarrow> Some (Inr (MainGraphRef, w))
                | Some False \<Rightarrow> Some (Inr (findOrCreateGraph ast w Mo))))"

section \<open>Availability filter\<close>

definition isUnavailableOrObsoleted :: "AST \<Rightarrow> Decl \<Rightarrow> bool" where
  "isUnavailableOrObsoleted ast D =
     (case getUnavailable ast D of
        None \<Rightarrow> False
      | Some Avail \<Rightarrow>
          if Platform Avail \<noteq> none
          then (case getVersionAvailability Avail of
                  Unavailable \<Rightarrow> True
                | Obsoleted \<Rightarrow> True
                | _ \<Rightarrow> False)
          else False)"

section \<open>Interface conformance expander\<close>

text \<open>
  The two pending vectors, \<^verbatim>\<open>UnexpandedProtocols\<close> and \<^verbatim>\<open>UnexpandedCompositions\<close>:
  \<^verbatim>\<open>push_back\<close> appends at the end and \<^verbatim>\<open>pop_back_val\<close> takes the last element.
\<close>

type_synonym Unexpanded = "Decl list \<times> ProtocolCompositionType list"

definition asProtocolDecl :: "AST \<Rightarrow> Decl option \<Rightarrow> Decl option" where
  "asProtocolDecl ast d =
     (case d of None \<Rightarrow> None
      | Some p \<Rightarrow> if getKind ast p = Protocol then Some p else None)"

definition HandleProtocolOrComposition :: "AST \<Rightarrow> Type \<Rightarrow> Unexpanded \<Rightarrow> error + Unexpanded" where
  "HandleProtocolOrComposition ast Ty U =
     (case asProtocolDecl ast (getAnyNominal ast Ty) of
        Some Proto \<Rightarrow> Inr (fst U @ [Proto], snd U)
      | None \<Rightarrow>
          (case getAsProtocolCompositionType ast Ty of
             Some Comp \<Rightarrow> Inr (fst U, snd U @ [Comp])
           | None \<Rightarrow> Inl Abort))"

text \<open>The loop that seeds the pending vectors from the extension (lines 220-226).\<close>

fun seedUnexpanded :: "AST \<Rightarrow> Type option list \<Rightarrow> Unexpanded \<Rightarrow> error + Unexpanded" where
  "seedUnexpanded ast [] U = Inr U"
| "seedUnexpanded ast (None # Inherited) U = seedUnexpanded ast Inherited U"
| "seedUnexpanded ast (Some InheritedTy # Inherited) U =
     (case HandleProtocolOrComposition ast InheritedTy U of
        Inl e \<Rightarrow> Inl e
      | Inr U' \<Rightarrow> seedUnexpanded ast Inherited U')"

text \<open>The loop over the members of a popped composition (lines 233-235).\<close>

fun expandMembers :: "AST \<Rightarrow> Type list \<Rightarrow> Unexpanded \<Rightarrow> error + Unexpanded" where
  "expandMembers ast [] U = Inr U"
| "expandMembers ast (Member # Members) U =
     (case HandleProtocolOrComposition ast Member U of
        Inl e \<Rightarrow> Inl e
      | Inr U' \<Rightarrow> expandMembers ast Members U')"

text \<open>The loop over the inherited entries of a popped protocol (lines 238-244).\<close>

fun expandInherited :: "AST \<Rightarrow> Type option list \<Rightarrow> Unexpanded \<Rightarrow> error + Unexpanded" where
  "expandInherited ast [] U = Inr U"
| "expandInherited ast (None # Inherited) U = expandInherited ast Inherited U"
| "expandInherited ast (Some InheritedTy # Inherited) U =
     (case HandleProtocolOrComposition ast InheritedTy U of
        Inl e \<Rightarrow> Inl e
      | Inr U' \<Rightarrow> expandInherited ast Inherited U')"

text \<open>
  One iteration of the worklist loop (the body of lines 230-247), on the state
  (\<^verbatim>\<open>Protocols\<close>, \<^verbatim>\<open>UnexpandedProtocols\<close>, \<^verbatim>\<open>UnexpandedCompositions\<close>) with one of
  the pending vectors non-empty.
\<close>

definition expandStep :: "AST \<Rightarrow> Decl list \<times> Unexpanded \<Rightarrow> error + Decl list \<times> Unexpanded" where
  "expandStep ast s =
     (case s of (Protocols, UnexpandedProtocols, UnexpandedCompositions) \<Rightarrow>
        if UnexpandedCompositions \<noteq> []
        then (case expandMembers ast (getMembers ast (last UnexpandedCompositions))
                     (UnexpandedProtocols, butlast UnexpandedCompositions) of
                Inl e \<Rightarrow> Inl e
              | Inr U \<Rightarrow> Inr (Protocols, U))
        else (case expandInherited ast (getInherited ast (last UnexpandedProtocols))
                     (butlast UnexpandedProtocols, UnexpandedCompositions) of
                Inl e \<Rightarrow> Inl e
              | Inr U \<Rightarrow> Inr (Protocols @ [last UnexpandedProtocols], U)))"

partial_function (option) expandLoop ::
  "AST \<Rightarrow> Decl list \<times> Unexpanded \<Rightarrow> (error + Decl list \<times> Unexpanded) option" where
  "expandLoop ast s =
     (if snd (snd s) \<noteq> [] \<or> fst (snd s) \<noteq> []
      then (case expandStep ast s of
              Inl e \<Rightarrow> Some (Inl e)
            | Inr s' \<Rightarrow> expandLoop ast s')
      else Some (Inr s))"

text \<open>Lines 202-247: the expanded list \<^verbatim>\<open>Protocols\<close> for the entries stated on an extension.\<close>

definition expandConformances :: "AST \<Rightarrow> Type option list \<Rightarrow> (error + Decl list) option" where
  "expandConformances ast Inherited =
     (case seedUnexpanded ast Inherited ([], []) of
        Inl e \<Rightarrow> Some (Inl e)
      | Inr U \<Rightarrow> bind_result (expandLoop ast ([], U)) (\<lambda>s. Some (Inr (fst s))))"

section \<open>The inheritance and composition graph\<close>

text \<open>
  What a pending vector holds is a protocol or a composition. The dependents of a protocol
  are its inherited entries that resolved, those of a composition are its members; an edge
  of the graph leads from a dependent, as \<^verbatim>\<open>HandleProtocolOrComposition\<close> classifies it,
  to the item that states it.
\<close>

datatype Pending = PendingProtocol Decl | PendingComposition ProtocolCompositionType

definition classify :: "AST \<Rightarrow> Type \<Rightarrow> Pending option" where
  "classify ast Ty =
     (case asProtocolDecl ast (getAnyNominal ast Ty) of
        Some Proto \<Rightarrow> Some (PendingProtocol Proto)
      | None \<Rightarrow>
          (case getAsProtocolCompositionType ast Ty of
             Some Comp \<Rightarrow> Some (PendingComposition Comp)
           | None \<Rightarrow> None))"

fun dependents :: "AST \<Rightarrow> Pending \<Rightarrow> Type list" where
  "dependents ast (PendingProtocol Proto) = [Ty. Some Ty \<leftarrow> getInherited ast Proto]"
| "dependents ast (PendingComposition Comp) = getMembers ast Comp"

definition inheritanceGraph :: "AST \<Rightarrow> (Pending \<times> Pending) set" where
  "inheritanceGraph ast =
     {(child, parent). \<exists>Ty \<in> set (dependents ast parent). classify ast Ty = Some child}"

definition pendingItems :: "Unexpanded \<Rightarrow> Pending multiset" where
  "pendingItems U =
     mset (map PendingProtocol (fst U)) + mset (map PendingComposition (snd U))"

text \<open>
  The iterations of the worklist loop as a relation: the loop condition holds at \<open>s\<close> and
  the body takes \<open>s\<close> to \<open>s'\<close> without aborting. \<open>classifiedNext\<close> lists the types that the
  next iteration hands to \<^verbatim>\<open>HandleProtocolOrComposition\<close>.
\<close>

definition isPending :: "Decl list \<times> Unexpanded \<Rightarrow> bool" where
  "isPending s = (snd (snd s) \<noteq> [] \<or> fst (snd s) \<noteq> [])"

definition expandIterations :: "AST \<Rightarrow> ((Decl list \<times> Unexpanded) \<times> (Decl list \<times> Unexpanded)) set" where
  "expandIterations ast = {(s, s'). isPending s \<and> expandStep ast s = Inr s'}"

definition classifiedNext :: "AST \<Rightarrow> Decl list \<times> Unexpanded \<Rightarrow> Type list" where
  "classifiedNext ast s =
     (if snd (snd s) \<noteq> [] then dependents ast (PendingComposition (last (snd (snd s))))
      else dependents ast (PendingProtocol (last (fst (snd s)))))"

section \<open>Declaration tree walker\<close>

fun isRecordedKind :: "DeclKind \<Rightarrow> bool" where
  "isRecordedKind OtherValueDecl = False"
| "isRecordedKind OtherDecl = False"
| "isRecordedKind _ = True"

text \<open>Lines 163-166.\<close>

definition shouldBeRecordedAsExtension ::
  "AST \<Rightarrow> SymbolGraphASTWalker \<Rightarrow> Decl \<Rightarrow> Decl \<Rightarrow> bool" where
  "shouldBeRecordedAsExtension ast w Ext ExtendedNominal =
     (EmitExtensionBlockSymbols w
      \<and> getNameStr ast (getModuleContext ast Ext)
          \<noteq> getNameStr ast (getModuleContext ast ExtendedNominal))"

text \<open>Lines 250-254: one edge per expanded protocol, each to a main-graph symbol.\<close>

definition recordConformances ::
  "GraphRef \<Rightarrow> Symbol \<Rightarrow> Decl \<Rightarrow> Decl list \<Rightarrow> SymbolGraphASTWalker \<Rightarrow> SymbolGraphASTWalker" where
  "recordConformances ExtendedSG Source Ext Protocols w =
     fold (\<lambda>Proto. onGraph ExtendedSG
             (recordEdge Source (Symbol MainGraphRef Proto None) ConformsTo (Some Ext)))
       Protocols w"

text \<open>The extension branch (lines 149-265).\<close>

definition walkExtension ::
  "AST \<Rightarrow> Visibility \<Rightarrow> SymbolGraphASTWalker \<Rightarrow> Decl
     \<Rightarrow> (error + bool \<times> SymbolGraphASTWalker) option" where
  "walkExtension ast vis w Ext =
     (case getExtendedNominal ast Ext of
        None \<Rightarrow> Some (Inl NullDereference)
      | Some ExtendedNominal \<Rightarrow>
          bind_result (getModuleSymbolGraph ast w ExtendedNominal)
            (\<lambda>(ExtendedSG, w1).
               if isImplicitlyPrivate vis ExtendedSG Ext then Some (Inr (False, w1))
               else if isUnavailableOrObsoleted ast ExtendedNominal then Some (Inr (False, w1))
               else
                 let should = shouldBeRecordedAsExtension ast w1 Ext ExtendedNominal;
                     Source = (if should then Symbol ExtendedSG Ext None
                               else Symbol ExtendedSG ExtendedNominal None);
                     w2 = (if should
                           then onGraph ExtendedSG
                                  (recordEdge Source (Symbol ExtendedSG ExtendedNominal None)
                                     ExtensionTo None)
                                  (onGraph ExtendedSG (recordNode Source) w1)
                           else w1)
                 in if getInherited ast Ext \<noteq> []
                    then bind_result (expandConformances ast (getInherited ast Ext))
                           (\<lambda>Protocols.
                              let w3 = recordConformances ExtendedSG Source Ext Protocols w2;
                                  w4 = (if getModuleContext ast ExtendedNominal \<noteq> M w3
                                        then onGraph ExtendedSG
                                               (recordConformanceSynthesizedMemberRelationships
                                                  Source) w3
                                        else w3)
                              in Some (Inr (True, w4)))
                    else Some (Inr (True, w2))))"

text \<open>The plain-symbol branch (lines 267-290).\<close>

definition walkValueDecl ::
  "AST \<Rightarrow> Visibility \<Rightarrow> SymbolGraphASTWalker \<Rightarrow> GraphRef \<Rightarrow> Decl
     \<Rightarrow> (error + bool \<times> SymbolGraphASTWalker) option" where
  "walkValueDecl ast vis w SG VD =
     (if \<not> canIncludeDeclAsNode vis SG VD then Some (Inr (False, w))
      else
        (case (case asExtensionDecl ast
                      (case getDeclContext ast VD of None \<Rightarrow> None
                       | Some dc \<Rightarrow> getAsDecl ast dc) of
                 None \<Rightarrow> None
               | Some Ext \<Rightarrow> getExtendedNominal ast Ext) of
           None \<Rightarrow> Some (Inr (True, onGraph SG (recordNode (Symbol SG VD None)) w))
         | Some ExtendedNominal \<Rightarrow>
             bind_result (getModuleSymbolGraph ast w ExtendedNominal)
               (\<lambda>(ExtendedSG, w1).
                  if getModuleContext ast ExtendedNominal \<noteq> M w1
                  then Some (Inr (True,
                         onGraph ExtendedSG (recordNode (Symbol ExtendedSG VD None)) w1))
                  else Some (Inr (True, onGraph SG (recordNode (Symbol SG VD None)) w1)))))"

text \<open>
  The visit function: \<open>False\<close> tells the traversal to skip the subtree of \<open>D\<close>, \<open>True\<close> to
  descend into it. \<open>classifyAndRecord\<close> is what follows the availability filter
  (lines 124-290).
\<close>

definition classifyAndRecord ::
  "AST \<Rightarrow> Visibility \<Rightarrow> SymbolGraphASTWalker \<Rightarrow> Decl
     \<Rightarrow> (error + bool \<times> SymbolGraphASTWalker) option" where
  "classifyAndRecord ast vis w D =
     (if \<not> isRecordedKind (getKind ast D) then Some (Inr (True, w))
      else bind_result (getModuleSymbolGraph ast w D)
             (\<lambda>(SG, w1).
                if getKind ast D = Extension then walkExtension ast vis w1 D
                else walkValueDecl ast vis w1 SG D))"

definition walkToDeclPre ::
  "AST \<Rightarrow> Visibility \<Rightarrow> SymbolGraphASTWalker \<Rightarrow> Decl
     \<Rightarrow> (error + bool \<times> SymbolGraphASTWalker) option" where
  "walkToDeclPre ast vis w D =
     (if isUnavailableOrObsoleted ast D then Some (Inr (False, w))
      else classifyAndRecord ast vis w D)"

section \<open>An example module\<close>

text \<open>
  Module \<open>Local\<close> (address 0) is under inspection; \<open>Foreign\<close> (1) and \<open>Vendored\<close> (2) are
  imported, and \<open>Vendored\<close> is re-exported. \<open>Foreign\<close> declares the struct \<open>T\<close> (1) and
  \<open>Vendored\<close> the struct \<open>V\<close> (6). \<open>Local\<close> declares the protocols \<open>A\<close> (3), \<open>B\<close> (4), which
  inherits \<open>C\<close>, \<open>C\<close> (5) and \<open>P\<close> (11), whose first inherited entry did not resolve; the
  functions \<open>legacy\<close> (7), unavailable on one platform, and \<open>retired\<close> (8), unavailable on
  every platform; the protocol \<open>Q\<close> (12), which states the struct type \<open>T\<close> (type 4) as
  inherited; and four extensions: 2 extends \<open>T\<close> and states \<open>A & B\<close> (type 0), 9 extends
  \<open>V\<close>, 10 extends \<open>T\<close> and states the struct type \<open>T\<close>, and 13 extends \<open>T\<close> and
  states \<open>Q\<close> (type 5).
\<close>

definition tableLookup :: "('a \<times> 'b) list \<Rightarrow> 'b \<Rightarrow> 'a \<Rightarrow> 'b" where
  "tableLookup table dflt k = (case map_of table k of None \<Rightarrow> dflt | Some v \<Rightarrow> v)"

definition exampleAST :: AST where
  "exampleAST =
     \<lparr>getNameStr = tableLookup
        [(ModulePtr 0, ''Local''), (ModulePtr 1, ''Foreign''), (ModulePtr 2, ''Vendored'')] '''',
      isNonSwiftModule = (\<lambda>m. False),
      getKind = tableLookup
        [(DeclPtr 1, Struct), (DeclPtr 2, Extension), (DeclPtr 3, Protocol),
         (DeclPtr 4, Protocol), (DeclPtr 5, Protocol), (DeclPtr 6, Struct),
         (DeclPtr 7, Func), (DeclPtr 8, Func), (DeclPtr 9, Extension),
         (DeclPtr 10, Extension), (DeclPtr 11, Protocol), (DeclPtr 12, Protocol),
         (DeclPtr 13, Extension)] OtherDecl,
      getModuleContext = tableLookup
        [(DeclPtr 1, ModulePtr 1), (DeclPtr 6, ModulePtr 2)] (ModulePtr 0),
      getDeclContext = tableLookup
        [(DeclPtr 1, Some (ContextPtr 1)), (DeclPtr 6, Some (ContextPtr 2))]
        (Some (ContextPtr 0)),
      getParentModule = tableLookup
        [(ContextPtr 1, ModulePtr 1), (ContextPtr 2, ModulePtr 2)] (ModulePtr 0),
      getAsDecl = (\<lambda>dc. None),
      getParent = (\<lambda>dc. None),
      getExtendedNominal = tableLookup
        [(DeclPtr 2, Some (DeclPtr 1)), (DeclPtr 9, Some (DeclPtr 6)),
         (DeclPtr 10, Some (DeclPtr 1)), (DeclPtr 13, Some (DeclPtr 1))] None,
      getInherited = tableLookup
        [(DeclPtr 2, [Some (TypePtr 0)]), (DeclPtr 4, [Some (TypePtr 3)]),
         (DeclPtr 10, [Some (TypePtr 4)]), (DeclPtr 11, [None, Some (TypePtr 3)]),
         (DeclPtr 12, [Some (TypePtr 4)]), (DeclPtr 13, [Some (TypePtr 5)])] [],
      getUnavailable = tableLookup
        [(DeclPtr 7, Some \<lparr>Platform = NamedPlatform ''macOS'',
                             getVersionAvailability = Unavailable\<rparr>),
         (DeclPtr 8, Some \<lparr>Platform = none, getVersionAvailability = Unavailable\<rparr>)] None,
      getAnyNominal = tableLookup
        [(TypePtr 1, Some (DeclPtr 3)), (TypePtr 2, Some (DeclPtr 4)),
         (TypePtr 3, Some (DeclPtr 5)), (TypePtr 4, Some (DeclPtr 1)),
         (TypePtr 5, Some (DeclPtr 12))] None,
      getAsProtocolCompositionType = tableLookup
        [(TypePtr 0, Some (CompositionPtr 0))] None,
      getMembers = tableLookup
        [(CompositionPtr 0, [TypePtr 1, TypePtr 2])] []\<rparr>"

definition exampleVisibility :: Visibility where
  "exampleVisibility =
     \<lparr>isImplicitlyPrivate = (\<lambda>g d. False), canIncludeDeclAsNode = (\<lambda>g d. True)\<rparr>"

definition exampleWalker :: SymbolGraphASTWalker where
  "exampleWalker =
     \<lparr>EmitExtensionBlockSymbols = True,
      M = ModulePtr 0,
      ExportedImportedModules = {ModulePtr 2},
      QualifiedExportedImports = [],
      MainGraph = newSymbolGraph (ModulePtr 0) None None,
      ExtendedModuleGraphs = Map.empty\<rparr>"

section \<open>Evaluation lemmas\<close>

lemma bind_result_simps [simp]:
  "bind_result None f = None"
  "bind_result (Some (Inl e)) f = Some (Inl e)"
  "bind_result (Some (Inr v)) f = f v"
  by (simp_all add: bind_result_def)

lemma owningModule_None:
  "owningModule ast Mo None EN = Some (Inr (Mo, EN))"
  by (subst owningModule.simps) simp

lemma owningModule_Some:
  "owningModule ast Mo (Some dc) EN =
     (case getAsDecl ast dc of
        None \<Rightarrow> Some (Inr (getParentModule ast dc, EN))
      | Some d \<Rightarrow>
          if isNominalTypeDecl (getKind ast d)
          then owningModule ast (getParentModule ast dc) (getDeclContext ast d) EN
          else if getKind ast d = Extension
          then (case getExtendedNominal ast d of
                  None \<Rightarrow> Some (Inl NullDereference)
                | Some nominal \<Rightarrow>
                    owningModule ast (getParentModule ast dc) (getDeclContext ast nominal)
                      (if EN = None then Some nominal else EN))
          else Some (Inr (getParentModule ast dc, EN)))"
  by (subst owningModule.simps) (simp add: owningModule_None split: option.splits)

lemma findEnclosingExtendedNominal_None:
  "findEnclosingExtendedNominal ast None EN = Some EN"
  by (subst findEnclosingExtendedNominal.simps) simp

lemma findEnclosingExtendedNominal_found:
  "findEnclosingExtendedNominal ast DC (Some nominal) = Some (Some nominal)"
  by (subst findEnclosingExtendedNominal.simps) (simp split: option.splits)

lemma findEnclosingExtendedNominal_Some:
  "findEnclosingExtendedNominal ast (Some dc) None =
     (case asExtensionDecl ast (getAsDecl ast dc) of
        Some ED \<Rightarrow> findEnclosingExtendedNominal ast (Some dc) (getExtendedNominal ast ED)
      | None \<Rightarrow> findEnclosingExtendedNominal ast (getParent ast dc) None)"
  by (subst findEnclosingExtendedNominal.simps) simp

lemmas example_defs =
  exampleAST_def exampleVisibility_def exampleWalker_def tableLookup_def newSymbolGraph_def

lemmas resolution_defs =
  getModuleSymbolGraph_def isLocalModule_def areModulesEqual_def isReExported_def
  isExportedImportedModule_def isQualifiedExportedImport_def isConsideredExportedImported_def
  isFromExportedImportedModule_def findOrCreateGraph_def asExtensionDecl_def
  owningModule_Some owningModule_None findEnclosingExtendedNominal_None
  findEnclosingExtendedNominal_found findEnclosingExtendedNominal_Some

section \<open>Lemmas about the worklist\<close>

lemma handle_items:
  assumes "HandleProtocolOrComposition ast Ty U = Inr U'"
  shows "\<exists>b. classify ast Ty = Some b \<and> pendingItems U' = add_mset b (pendingItems U)"
  using assms
  by (auto simp: HandleProtocolOrComposition_def classify_def pendingItems_def
           split: option.splits)

lemma members_items:
  "expandMembers ast tys U = Inr U' \<Longrightarrow>
     \<exists>K. pendingItems U' = pendingItems U + K
        \<and> (\<forall>b. b \<in># K \<longrightarrow> (\<exists>Ty \<in> set tys. classify ast Ty = Some b))"
proof (induction ast tys U rule: expandMembers.induct)
  case (1 ast U)
  then show ?case by (intro exI [of _ "{#}"]) simp
next
  case (2 ast Member Members U)
  from "2.prems" obtain U1 where h: "HandleProtocolOrComposition ast Member U = Inr U1"
    and r: "expandMembers ast Members U1 = Inr U'"
    by (auto split: sum.splits)
  from handle_items [OF h] obtain b where b: "classify ast Member = Some b"
    and i1: "pendingItems U1 = add_mset b (pendingItems U)" by blast
  from "2.IH" [OF h r] obtain K where k: "pendingItems U' = pendingItems U1 + K"
    and kk: "\<forall>c. c \<in># K \<longrightarrow> (\<exists>Ty \<in> set Members. classify ast Ty = Some c)" by blast
  show ?case
  proof (intro exI [of _ "add_mset b K"] conjI allI impI)
    show "pendingItems U' = pendingItems U + add_mset b K" using k i1 by simp
  next
    fix c assume "c \<in># add_mset b K"
    then show "\<exists>Ty \<in> set (Member # Members). classify ast Ty = Some c"
      using b kk by auto
  qed
qed

lemma inherited_items:
  "expandInherited ast entries U = Inr U' \<Longrightarrow>
     \<exists>K. pendingItems U' = pendingItems U + K
        \<and> (\<forall>b. b \<in># K \<longrightarrow> (\<exists>Ty. Some Ty \<in> set entries \<and> classify ast Ty = Some b))"
proof (induction ast entries U rule: expandInherited.induct)
  case (1 ast U)
  then show ?case by (intro exI [of _ "{#}"]) simp
next
  case (2 ast Inherited U)
  then show ?case by auto
next
  case (3 ast InheritedTy Inherited U)
  from "3.prems" obtain U1 where h: "HandleProtocolOrComposition ast InheritedTy U = Inr U1"
    and r: "expandInherited ast Inherited U1 = Inr U'"
    by (auto split: sum.splits)
  from handle_items [OF h] obtain b where b: "classify ast InheritedTy = Some b"
    and i1: "pendingItems U1 = add_mset b (pendingItems U)" by blast
  from "3.IH" [OF h r] obtain K where k: "pendingItems U' = pendingItems U1 + K"
    and kk: "\<forall>c. c \<in># K \<longrightarrow> (\<exists>Ty. Some Ty \<in> set Inherited \<and> classify ast Ty = Some c)"
    by blast
  show ?case
  proof (intro exI [of _ "add_mset b K"] conjI allI impI)
    show "pendingItems U' = pendingItems U + add_mset b K" using k i1 by simp
  next
    fix c assume "c \<in># add_mset b K"
    then show "\<exists>Ty. Some Ty \<in> set (Some InheritedTy # Inherited) \<and> classify ast Ty = Some c"
      using b kk by auto
  qed
qed

lemma mset_map_pop:
  "xs \<noteq> [] \<Longrightarrow>
     image_mset f (mset xs) = add_mset (f (last xs)) (image_mset f (mset (butlast xs)))"
  by (induction xs rule: rev_induct) simp_all

lemma pendingItems_pop_composition:
  "UC \<noteq> [] \<Longrightarrow>
     pendingItems (UP, UC) = add_mset (PendingComposition (last UC)) (pendingItems (UP, butlast UC))"
  by (simp add: pendingItems_def mset_map_pop [of UC])

lemma pendingItems_pop_protocol:
  "UP \<noteq> [] \<Longrightarrow>
     pendingItems (UP, UC) = add_mset (PendingProtocol (last UP)) (pendingItems (butlast UP, UC))"
  by (simp add: pendingItems_def mset_map_pop [of UP])

lemma step_decreases:
  assumes "isPending s" and "expandStep ast s = Inr s'"
  shows "(pendingItems (snd s'), pendingItems (snd s)) \<in> mult1 (inheritanceGraph ast)"
proof -
  obtain Ps UP UC where s: "s = (Ps, UP, UC)" by (cases s) auto
  show ?thesis
  proof (cases "UC = []")
    case False
    with assms(2) s obtain U where m: "expandMembers ast (getMembers ast (last UC)) (UP, butlast UC) = Inr U"
      and s': "s' = (Ps, U)"
      by (auto simp: expandStep_def split: sum.splits)
    from members_items [OF m] obtain K where k: "pendingItems U = pendingItems (UP, butlast UC) + K"
      and kk: "\<forall>b. b \<in># K \<longrightarrow> (\<exists>Ty \<in> set (getMembers ast (last UC)). classify ast Ty = Some b)"
      by blast
    have "\<forall>b. b \<in># K \<longrightarrow> (b, PendingComposition (last UC)) \<in> inheritanceGraph ast"
      using kk by (auto simp: inheritanceGraph_def)
    then have "(pendingItems (UP, butlast UC) + K,
                add_mset (PendingComposition (last UC)) (pendingItems (UP, butlast UC)))
               \<in> mult1 (inheritanceGraph ast)"
      by (intro mult1I) auto
    then show ?thesis
      using s s' k pendingItems_pop_composition [OF False, of UP] by simp
  next
    case True
    with assms(1) s have ne: "UP \<noteq> []" by (simp add: isPending_def)
    from True assms(2) s obtain U where m: "expandInherited ast (getInherited ast (last UP)) (butlast UP, UC) = Inr U"
      and s': "s' = (Ps @ [last UP], U)"
      by (auto simp: expandStep_def split: sum.splits)
    from inherited_items [OF m] obtain K where k: "pendingItems U = pendingItems (butlast UP, UC) + K"
      and kk: "\<forall>b. b \<in># K \<longrightarrow> (\<exists>Ty. Some Ty \<in> set (getInherited ast (last UP)) \<and> classify ast Ty = Some b)"
      by blast
    have "\<forall>b. b \<in># K \<longrightarrow> (b, PendingProtocol (last UP)) \<in> inheritanceGraph ast"
      using kk by (fastforce simp: inheritanceGraph_def)
    then have "(pendingItems (butlast UP, UC) + K,
                add_mset (PendingProtocol (last UP)) (pendingItems (butlast UP, UC)))
               \<in> mult1 (inheritanceGraph ast)"
      by (intro mult1I) auto
    then show ?thesis
      using s s' k pendingItems_pop_protocol [OF ne, of UC] by simp
  qed
qed


lemma expandLoop_pending:
  "isPending s \<Longrightarrow>
     expandLoop ast s = (case expandStep ast s of
                          Inl e \<Rightarrow> Some (Inl e)
                        | Inr s' \<Rightarrow> expandLoop ast s')"
  by (subst expandLoop.simps) (simp add: isPending_def)

lemma expandLoop_done:
  "\<not> isPending s \<Longrightarrow> expandLoop ast s = Some (Inr s)"
  by (subst expandLoop.simps) (simp add: isPending_def)

lemma expandLoop_iteration:
  "(s, s') \<in> expandIterations ast \<Longrightarrow> expandLoop ast s = expandLoop ast s'"
  by (simp add: expandIterations_def expandLoop_pending)

lemma expandLoop_iterations:
  "(s, s') \<in> (expandIterations ast)\<^sup>* \<Longrightarrow> expandLoop ast s = expandLoop ast s'"
  by (induction rule: rtrancl_induct) (simp_all add: expandLoop_iteration)

lemma handle_error:
  "HandleProtocolOrComposition ast Ty U = Inl e \<Longrightarrow> e = Abort"
  by (auto simp: HandleProtocolOrComposition_def split: option.splits)

lemma expandMembers_error:
  "expandMembers ast tys U = Inl e \<Longrightarrow> e = Abort"
  by (induction ast tys U rule: expandMembers.induct)
     (auto split: sum.splits dest: handle_error)

lemma expandInherited_error:
  "expandInherited ast entries U = Inl e \<Longrightarrow> e = Abort"
  by (induction ast entries U rule: expandInherited.induct)
     (auto split: sum.splits dest: handle_error)

lemma seedUnexpanded_error:
  "seedUnexpanded ast entries U = Inl e \<Longrightarrow> e = Abort"
  by (induction ast entries U rule: seedUnexpanded.induct)
     (auto split: sum.splits dest: handle_error)

lemma expandStep_error:
  "expandStep ast s = Inl e \<Longrightarrow> e = Abort"
  by (cases s)
     (auto simp: expandStep_def split: if_splits sum.splits
           dest: expandMembers_error expandInherited_error)

lemma expandLoop_runs:
  assumes "wf (inheritanceGraph ast)"
  shows "\<exists>n s'. (s, s') \<in> expandIterations ast ^^ n
           \<and> (\<not> isPending s' \<and> expandLoop ast s = Some (Inr s')
              \<or> isPending s' \<and> expandStep ast s' = Inl Abort
                  \<and> expandLoop ast s = Some (Inl Abort))"
proof -
  have "wf (inv_image (mult1 (inheritanceGraph ast)) (\<lambda>s. pendingItems (snd s)))"
    using assms by (intro wf_inv_image wf_mult1)
  then show ?thesis
  proof (induction s rule: wf_induct_rule)
    case (less s)
    show ?case
    proof (cases "isPending s")
      case False
      then have "(s, s) \<in> expandIterations ast ^^ 0 \<and> \<not> isPending s
                   \<and> expandLoop ast s = Some (Inr s)"
        by (simp add: expandLoop_done)
      then show ?thesis by blast
    next
      case True
      show ?thesis
      proof (cases "expandStep ast s")
        case (Inl e)
        then have "expandStep ast s = Inl Abort" using expandStep_error by blast
        then have "(s, s) \<in> expandIterations ast ^^ 0 \<and> isPending s
                     \<and> expandStep ast s = Inl Abort \<and> expandLoop ast s = Some (Inl Abort)"
          using True by (simp add: expandLoop_pending)
        then show ?thesis by blast
      next
        case (Inr s1)
        with True have it: "(s, s1) \<in> expandIterations ast"
          by (simp add: expandIterations_def)
        have "(s1, s) \<in> inv_image (mult1 (inheritanceGraph ast)) (\<lambda>s. pendingItems (snd s))"
          using step_decreases [OF True Inr] by simp
        from less.IH [OF this] obtain n s' where
          run: "(s1, s') \<in> expandIterations ast ^^ n"
          and fin: "\<not> isPending s' \<and> expandLoop ast s1 = Some (Inr s')
              \<or> isPending s' \<and> expandStep ast s' = Inl Abort
                  \<and> expandLoop ast s1 = Some (Inl Abort)"
          by blast
        have "(s, s') \<in> expandIterations ast ^^ Suc n"
          using it run by (rule relpow_Suc_I2)
        moreover have "expandLoop ast s = expandLoop ast s1"
          using it by (rule expandLoop_iteration)
        ultimately show ?thesis using fin by metis
      qed
    qed
  qed
qed

lemma handle_defect:
  "asProtocolDecl ast (getAnyNominal ast Ty) = None \<Longrightarrow>
   getAsProtocolCompositionType ast Ty = None \<Longrightarrow>
     HandleProtocolOrComposition ast Ty U = Inl Abort"
  by (simp add: HandleProtocolOrComposition_def)

lemma seedUnexpanded_defect:
  "Some Ty \<in> set entries \<Longrightarrow> asProtocolDecl ast (getAnyNominal ast Ty) = None \<Longrightarrow>
   getAsProtocolCompositionType ast Ty = None \<Longrightarrow>
     seedUnexpanded ast entries U = Inl Abort"
proof (induction ast entries U rule: seedUnexpanded.induct)
  case (3 ast InheritedTy Inherited U)
  then show ?case
    by (cases "HandleProtocolOrComposition ast InheritedTy U")
       (auto simp: handle_defect dest: handle_error)
qed simp_all

lemma expandInherited_defect:
  "Some Ty \<in> set entries \<Longrightarrow> asProtocolDecl ast (getAnyNominal ast Ty) = None \<Longrightarrow>
   getAsProtocolCompositionType ast Ty = None \<Longrightarrow>
     expandInherited ast entries U = Inl Abort"
proof (induction ast entries U rule: expandInherited.induct)
  case (3 ast InheritedTy Inherited U)
  then show ?case
    by (cases "HandleProtocolOrComposition ast InheritedTy U")
       (auto simp: handle_defect dest: handle_error)
qed simp_all

lemma expandMembers_defect:
  "Ty \<in> set tys \<Longrightarrow> asProtocolDecl ast (getAnyNominal ast Ty) = None \<Longrightarrow>
   getAsProtocolCompositionType ast Ty = None \<Longrightarrow>
     expandMembers ast tys U = Inl Abort"
proof (induction ast tys U rule: expandMembers.induct)
  case (2 ast Member Members U)
  then show ?case
    by (cases "HandleProtocolOrComposition ast Member U")
       (auto simp: handle_defect dest: handle_error)
qed simp_all

lemma expandStep_defect:
  assumes "isPending s" and "Ty \<in> set (classifiedNext ast s)"
    and "asProtocolDecl ast (getAnyNominal ast Ty) = None"
    and "getAsProtocolCompositionType ast Ty = None"
  shows "expandStep ast s = Inl Abort"
proof -
  obtain Ps UP UC where s: "s = (Ps, UP, UC)" by (cases s) auto
  show ?thesis
  proof (cases "UC = []")
    case False
    with assms(2) s have "Ty \<in> set (getMembers ast (last UC))"
      by (simp add: classifiedNext_def)
    from expandMembers_defect [OF this assms(3,4)] False s show ?thesis
      by (simp add: expandStep_def)
  next
    case True
    with assms(2) s have "Some Ty \<in> set (getInherited ast (last UP))"
      by (auto simp: classifiedNext_def split: option.splits)
    from expandInherited_defect [OF this assms(3,4)] True s show ?thesis
      by (simp add: expandStep_def)
  qed
qed

section \<open>Lemmas about the example and the walker\<close>

lemma example_graph:
  "inheritanceGraph exampleAST \<subseteq>
     {(PendingProtocol (DeclPtr 3), PendingComposition (CompositionPtr 0)),
      (PendingProtocol (DeclPtr 4), PendingComposition (CompositionPtr 0)),
      (PendingProtocol (DeclPtr 5), PendingProtocol (DeclPtr 4)),
      (PendingProtocol (DeclPtr 5), PendingProtocol (DeclPtr 11)),
      (PendingComposition (CompositionPtr 0), PendingProtocol (DeclPtr 2)),
      (PendingProtocol (DeclPtr 12), PendingProtocol (DeclPtr 13))}"
proof
  fix e assume "e \<in> inheritanceGraph exampleAST"
  then obtain child parent Ty where e: "e = (child, parent)"
    and ty: "Ty \<in> set (dependents exampleAST parent)"
    and c: "classify exampleAST Ty = Some child"
    by (auto simp: inheritanceGraph_def)
  show "e \<in> {(PendingProtocol (DeclPtr 3), PendingComposition (CompositionPtr 0)),
      (PendingProtocol (DeclPtr 4), PendingComposition (CompositionPtr 0)),
      (PendingProtocol (DeclPtr 5), PendingProtocol (DeclPtr 4)),
      (PendingProtocol (DeclPtr 5), PendingProtocol (DeclPtr 11)),
      (PendingComposition (CompositionPtr 0), PendingProtocol (DeclPtr 2)),
      (PendingProtocol (DeclPtr 12), PendingProtocol (DeclPtr 13))}"
  proof (cases parent)
    case (PendingProtocol p)
    with ty c e show ?thesis
      by (auto simp: example_defs classify_def asProtocolDecl_def split: if_splits)
  next
    case (PendingComposition k)
    with ty c e show ?thesis
      by (auto simp: example_defs classify_def asProtocolDecl_def split: if_splits)
  qed
qed

lemma example_graph_wf: "wf (inheritanceGraph exampleAST)"
proof -
  let ?rank = "\<lambda>item. case item of
                 PendingComposition k \<Rightarrow> (2::nat)
               | PendingProtocol (DeclPtr n) \<Rightarrow>
                   if n = 4 \<or> n = 11 \<or> n = 13 then 1 else if n = 2 then 3 else 0"
  have "inheritanceGraph exampleAST \<subseteq> measure ?rank"
    using example_graph by (rule subset_trans) simp
  then show ?thesis by (rule wf_subset [OF wf_measure])
qed

lemma walkToDeclPre_expansion_aborts:
  assumes "getKind ast Ext = Extension" and "\<not> isUnavailableOrObsoleted ast Ext"
    and "getModuleSymbolGraph ast w Ext = Some (Inr (SG0, w1))"
    and "getExtendedNominal ast Ext = Some Nominal"
    and "getModuleSymbolGraph ast w1 Nominal = Some (Inr (SG, w2))"
    and "\<not> isImplicitlyPrivate vis SG Ext" and "\<not> isUnavailableOrObsoleted ast Nominal"
    and "expandConformances ast (getInherited ast Ext) = Some (Inl Abort)"
  shows "walkToDeclPre ast vis w Ext = Some (Inl Abort)"
proof -
  have "getInherited ast Ext \<noteq> []"
    using assms(8) by (auto simp: expandConformances_def expandLoop_done isPending_def)
  then show ?thesis using assms
    by (simp add: walkToDeclPre_def classifyAndRecord_def walkExtension_def Let_def)
qed

lemma example_graph_of_local:
  "getModuleContext exampleAST D = ModulePtr 0 \<Longrightarrow>
   getDeclContext exampleAST D = Some (ContextPtr 0) \<Longrightarrow>
     getModuleSymbolGraph exampleAST exampleWalker D = Some (Inr (MainGraphRef, exampleWalker))"
  by (simp add: resolution_defs) (simp add: example_defs)

lemma example_graph_of_T:
  "getModuleSymbolGraph exampleAST exampleWalker (DeclPtr 1)
     = Some (Inr (ExtendedGraphRef ''Foreign'',
         exampleWalker\<lparr>ExtendedModuleGraphs :=
           [''Foreign'' \<mapsto> newSymbolGraph (ModulePtr 0) (Some (ModulePtr 1)) None]\<rparr>))"
  by (simp add: resolution_defs example_defs)

lemma getModuleSymbolGraph_cases:
  assumes "getModuleSymbolGraph ast w D = Some (Inr (SG, w'))"
  shows "(SG = MainGraphRef \<and> w' = w)
         \<or> (\<exists>Mo. findOrCreateGraph ast w Mo = (SG, w'))"
proof -
  from assms obtain Mo EN where
    "owningModule ast (getModuleContext ast D) (getDeclContext ast D) None = Some (Inr (Mo, EN))"
    by (auto simp: getModuleSymbolGraph_def bind_result_def split: option.splits sum.splits)
  with assms show ?thesis
    by (auto simp: getModuleSymbolGraph_def split: if_splits option.splits bool.splits)
qed

lemma findOrCreateGraph_valid:
  assumes "findOrCreateGraph ast w Mo = (SG, w')"
  shows "\<exists>g. getGraph w' SG = Some g"
proof (cases "ExtendedModuleGraphs w (getNameStr ast Mo)")
  case None
  with assms have "SG = ExtendedGraphRef (getNameStr ast Mo)"
    and "w' = w\<lparr>ExtendedModuleGraphs := (ExtendedModuleGraphs w)
               (getNameStr ast Mo \<mapsto>
                  newSymbolGraph (GraphM (MainGraph w)) (Some Mo)
                    (DeclaringModule (MainGraph w)))\<rparr>"
    by (auto simp: findOrCreateGraph_def)
  then show ?thesis by simp
next
  case (Some Found)
  with assms have "SG = ExtendedGraphRef (getNameStr ast Mo)" and "w' = w"
    by (auto simp: findOrCreateGraph_def)
  with Some show ?thesis by simp
qed

lemma findOrCreateGraph_config:
  assumes "findOrCreateGraph ast w Mo = (SG, w')"
  shows "EmitExtensionBlockSymbols w' = EmitExtensionBlockSymbols w \<and> M w' = M w"
  using assms by (cases "ExtendedModuleGraphs w (getNameStr ast Mo)")
                 (auto simp: findOrCreateGraph_def)

lemma getModuleSymbolGraph_valid:
  assumes "getModuleSymbolGraph ast w D = Some (Inr (SG, w'))"
  shows "\<exists>g. getGraph w' SG = Some g"
  using getModuleSymbolGraph_cases [OF assms] findOrCreateGraph_valid by auto

lemma getModuleSymbolGraph_config:
  assumes "getModuleSymbolGraph ast w D = Some (Inr (SG, w'))"
  shows "EmitExtensionBlockSymbols w' = EmitExtensionBlockSymbols w \<and> M w' = M w"
  using getModuleSymbolGraph_cases [OF assms] findOrCreateGraph_config by blast

lemma getGraph_onGraph:
  "getGraph w SG = Some g \<Longrightarrow> getGraph (onGraph SG f w) SG = Some (f g)"
  by (cases SG) simp_all

lemma M_onGraph [simp]: "M (onGraph SG f w) = M w"
  by (cases SG) (simp_all split: option.splits)

lemma recordConformances_graph:
  "getGraph w SG = Some g \<Longrightarrow>
     \<exists>g'. getGraph (recordConformances SG Source Ext Ps w) SG = Some g'
         \<and> Nodes g' = Nodes g
         \<and> Edges g' = Edges g \<union> (\<lambda>P. Edge ConformsTo Source (Symbol MainGraphRef P None)) ` set Ps"
proof (induction Ps arbitrary: w g)
  case Nil
  then show ?case by (simp add: recordConformances_def)
next
  case (Cons P Ps)
  let ?f = "recordEdge Source (Symbol MainGraphRef P None) ConformsTo (Some Ext)"
  from Cons.prems have "getGraph (onGraph SG ?f w) SG = Some (?f g)"
    by (rule getGraph_onGraph)
  from Cons.IH [OF this] obtain g' where
    "getGraph (recordConformances SG Source Ext Ps (onGraph SG ?f w)) SG = Some g'"
    "Nodes g' = Nodes (?f g)"
    "Edges g' = Edges (?f g) \<union> (\<lambda>P. Edge ConformsTo Source (Symbol MainGraphRef P None)) ` set Ps"
    by blast
  then show ?case
    by (intro exI [of _ g']) (auto simp: recordConformances_def recordEdge_def)
qed

lemma M_recordConformances [simp]: "M (recordConformances SG Source Ext Ps w) = M w"
  by (induction Ps arbitrary: w) (simp_all add: recordConformances_def)

lemma walkExtension_graph:
  assumes "getExtendedNominal ast Ext = Some Nominal"
    and "getModuleSymbolGraph ast w1 Nominal = Some (Inr (SG, w2))"
    and "\<not> isImplicitlyPrivate vis SG Ext"
    and "\<not> isUnavailableOrObsoleted ast Nominal"
    and "walkExtension ast vis w1 Ext = Some (Inr (descend, w'))"
  shows "\<exists>g g' Ps. getGraph w2 SG = Some g \<and> getGraph w' SG = Some g' \<and> descend
     \<and> (if getInherited ast Ext = [] then Ps = []
         else expandConformances ast (getInherited ast Ext) = Some (Inr Ps))
     \<and> Nodes g' = (if shouldBeRecordedAsExtension ast w2 Ext Nominal
                    then insert (Symbol SG Ext None) (Nodes g) else Nodes g)
     \<and> Edges g' = Edges g
         \<union> (if shouldBeRecordedAsExtension ast w2 Ext Nominal
             then {Edge ExtensionTo (Symbol SG Ext None) (Symbol SG Nominal None)} else {})
         \<union> (\<lambda>P. Edge ConformsTo
                   (if shouldBeRecordedAsExtension ast w2 Ext Nominal
                    then Symbol SG Ext None else Symbol SG Nominal None)
                   (Symbol MainGraphRef P None)) ` set Ps"
proof -
  let ?should = "shouldBeRecordedAsExtension ast w2 Ext Nominal"
  let ?Source = "if ?should then Symbol SG Ext None else Symbol SG Nominal None"
  let ?w3 = "if ?should
             then onGraph SG (recordEdge ?Source (Symbol SG Nominal None) ExtensionTo None)
                    (onGraph SG (recordNode ?Source) w2)
             else w2"
  from getModuleSymbolGraph_valid [OF assms(2)] obtain g where g: "getGraph w2 SG = Some g"
    by blast
  obtain g3 where g3: "getGraph ?w3 SG = Some g3"
    and n3: "Nodes g3 = (if ?should then insert (Symbol SG Ext None) (Nodes g) else Nodes g)"
    and e3: "Edges g3 = Edges g \<union> (if ?should
               then {Edge ExtensionTo (Symbol SG Ext None) (Symbol SG Nominal None)} else {})"
  proof (cases ?should)
    case True
    have "getGraph ?w3 SG
            = Some (recordEdge ?Source (Symbol SG Nominal None) ExtensionTo None
                      (recordNode ?Source g))"
      using True g by (simp add: getGraph_onGraph)
    with True that show ?thesis by (simp add: recordEdge_def recordNode_def)
  next
    case False
    with g that show ?thesis by simp
  qed
  show ?thesis
  proof (cases "getInherited ast Ext = []")
    case True
    with assms have "descend" "w' = ?w3"
      by (simp_all add: walkExtension_def Let_def)
    with g g3 n3 e3 True show ?thesis
      by (intro exI [of _ g] exI [of _ g3] exI [of _ "[]"]) simp
  next
    case False
    with assms obtain Ps where ps: "expandConformances ast (getInherited ast Ext) = Some (Inr Ps)"
      by (cases "expandConformances ast (getInherited ast Ext)")
         (auto simp: walkExtension_def Let_def bind_result_def split: sum.splits)
    let ?w4 = "recordConformances SG ?Source Ext Ps ?w3"
    let ?w5 = "if getModuleContext ast Nominal \<noteq> M ?w4
               then onGraph SG (recordConformanceSynthesizedMemberRelationships ?Source) ?w4
               else ?w4"
    from assms False ps have res: "descend" "w' = ?w5"
      by (simp_all add: walkExtension_def Let_def)
    from recordConformances_graph [OF g3, of ?Source Ext Ps] obtain g4 where
      g4: "getGraph ?w4 SG = Some g4" and n4: "Nodes g4 = Nodes g3"
      and e4: "Edges g4 = Edges g3
                 \<union> (\<lambda>P. Edge ConformsTo ?Source (Symbol MainGraphRef P None)) ` set Ps"
      by blast
    obtain g5 where g5: "getGraph ?w5 SG = Some g5" and n5: "Nodes g5 = Nodes g4"
      and e5: "Edges g5 = Edges g4"
    proof (cases "getModuleContext ast Nominal \<noteq> M ?w4")
      case True
      have "getGraph ?w5 SG = Some (recordConformanceSynthesizedMemberRelationships ?Source g4)"
        using True getGraph_onGraph [OF g4] by simp
      with that show ?thesis
        by (simp add: recordConformanceSynthesizedMemberRelationships_def)
    next
      case False
      with g4 that show ?thesis by simp
    qed
    from g g5 n5 e5 n4 e4 n3 e3 res ps False show ?thesis
      by (intro exI [of _ g] exI [of _ g5] exI [of _ Ps]) simp
  qed
qed

lemma walkToDeclPre_extension:
  assumes "getKind ast Ext = Extension" and "\<not> isUnavailableOrObsoleted ast Ext"
    and "getModuleSymbolGraph ast w Ext = Some (Inr (SG0, w1))"
  shows "walkToDeclPre ast vis w Ext = walkExtension ast vis w1 Ext"
  using assms by (simp add: walkToDeclPre_def classifyAndRecord_def)

lemma walkExtension_returns:
  assumes "getExtendedNominal ast Ext = Some Nominal"
    and "getModuleSymbolGraph ast w1 Nominal = Some (Inr (SG, w2))"
    and "\<not> isImplicitlyPrivate vis SG Ext"
    and "\<not> isUnavailableOrObsoleted ast Nominal"
    and "getInherited ast Ext = [] \<or> expandConformances ast (getInherited ast Ext) = Some (Inr Ps)"
  shows "\<exists>w'. walkExtension ast vis w1 Ext = Some (Inr (True, w'))"
  using assms by (auto simp: walkExtension_def Let_def)

lemma example_expansion:
  "expandConformances exampleAST (getInherited exampleAST (DeclPtr 2))
     = Some (Inr [DeclPtr 4, DeclPtr 5, DeclPtr 3])"
  by (simp add: expandConformances_def HandleProtocolOrComposition_def asProtocolDecl_def
        expandLoop_pending expandLoop_done isPending_def expandStep_def example_defs)

lemma example_extension_of_T:
  "getKind exampleAST (DeclPtr 2) = Extension"
  "\<not> isUnavailableOrObsoleted exampleAST (DeclPtr 2)"
  "getModuleSymbolGraph exampleAST exampleWalker (DeclPtr 2)
     = Some (Inr (MainGraphRef, exampleWalker))"
  "getExtendedNominal exampleAST (DeclPtr 2) = Some (DeclPtr 1)"
  "\<not> isImplicitlyPrivate exampleVisibility (ExtendedGraphRef ''Foreign'') (DeclPtr 2)"
  "\<not> isUnavailableOrObsoleted exampleAST (DeclPtr 1)"
  "shouldBeRecordedAsExtension exampleAST exampleWalker (DeclPtr 2) (DeclPtr 1)"
proof -
  show "getModuleSymbolGraph exampleAST exampleWalker (DeclPtr 2)
          = Some (Inr (MainGraphRef, exampleWalker))"
    by (rule example_graph_of_local) (simp_all add: example_defs)
qed (simp_all add: isUnavailableOrObsoleted_def shouldBeRecordedAsExtension_def example_defs)

lemma example_walk_extension_of_T:
  "\<exists>w'. walkToDeclPre exampleAST exampleVisibility exampleWalker (DeclPtr 2)
          = Some (Inr (True, w'))"
proof -
  from walkExtension_returns [OF example_extension_of_T(4) example_graph_of_T
         example_extension_of_T(5,6), of "[DeclPtr 4, DeclPtr 5, DeclPtr 3]"] example_expansion
  obtain w' where "walkExtension exampleAST exampleVisibility exampleWalker (DeclPtr 2)
                     = Some (Inr (True, w'))" by blast
  with walkToDeclPre_extension [OF example_extension_of_T(1-3), of exampleVisibility]
  show ?thesis by simp
qed

section \<open>Properties\<close>

text \<open>
  C6. The module comparison is true exactly when the names are equal and, with
  \<open>ignoreUnderlying\<close> false, the foreign-versus-native flags agree as well; with
  \<open>ignoreUnderlying\<close> true, equal names alone suffice.
\<close>

theorem areModulesEqual_contract:
  "areModulesEqual ast a b True = (getNameStr ast a = getNameStr ast b)
   \<and> areModulesEqual ast a b False =
       (getNameStr ast a = getNameStr ast b \<and> isNonSwiftModule ast a = isNonSwiftModule ast b)"
  by (simp add: areModulesEqual_def)

text \<open>
  C4. A declaration that is unavailable-or-obsoleted for the target platform is skipped
  before any classification or recording: the visit returns "skip" and leaves every graph as
  it was, whatever the rest of the visit would have done.
\<close>

theorem unavailable_decl_is_skipped:
  "isUnavailableOrObsoleted ast D \<Longrightarrow> walkToDeclPre ast vis w D = Some (Inr (False, w))"
  by (simp add: walkToDeclPre_def)

theorem unavailable_decl_is_skipped_witness:
  "isUnavailableOrObsoleted exampleAST (DeclPtr 7)
   \<and> walkToDeclPre exampleAST exampleVisibility exampleWalker (DeclPtr 7)
       = Some (Inr (False, exampleWalker))"
proof -
  have h: "isUnavailableOrObsoleted exampleAST (DeclPtr 7)"
    by (simp add: isUnavailableOrObsoleted_def example_defs)
  from unavailable_decl_is_skipped [OF h] h show ?thesis by simp
qed

text \<open>
  C5. A declaration whose owning module is listed, by strict module identity (equal name and
  equal foreign-ness flag), in the exported-imported modules resolves to the main graph, and
  no extension graph is created for that module.
\<close>

theorem reexported_module_folds_into_main_graph:
  assumes "owningModule ast (getModuleContext ast D) (getDeclContext ast D) None
             = Some (Inr (Vendored, EN))"
    and "MD \<in> ExportedImportedModules w"
    and "getNameStr ast Vendored = getNameStr ast MD"
    and "isNonSwiftModule ast Vendored = isNonSwiftModule ast MD"
  shows "getModuleSymbolGraph ast w D = Some (Inr (MainGraphRef, w))"
proof -
  have "isExportedImportedModule ast w Vendored"
    unfolding isExportedImportedModule_def areModulesEqual_def using assms(2-4) by auto
  then have "isReExported ast w D Vendored EN = Some True"
    by (simp add: isReExported_def)
  then show ?thesis using assms(1)
    by (simp add: getModuleSymbolGraph_def)
qed

theorem reexported_module_folds_into_main_graph_witness:
  "getModuleSymbolGraph exampleAST exampleWalker (DeclPtr 6)
     = Some (Inr (MainGraphRef, exampleWalker))
   \<and> ExtendedModuleGraphs exampleWalker ''Vendored'' = None"
proof -
  have climb: "owningModule exampleAST (getModuleContext exampleAST (DeclPtr 6))
                 (getDeclContext exampleAST (DeclPtr 6)) None
               = Some (Inr (ModulePtr 2, None))"
    by (simp add: example_defs owningModule_Some owningModule_None)
  have listed: "ModulePtr 2 \<in> ExportedImportedModules exampleWalker"
    by (simp add: example_defs)
  from reexported_module_folds_into_main_graph [OF climb listed refl refl]
  show ?thesis by (simp add: example_defs)
qed

text \<open>
  C9. A declaration whose unavailability attribute names no platform (platform kind
  \<open>none\<close>) passes the availability filter, whatever its version availability: the visit goes
  on to classification and recording exactly as for an available declaration.
\<close>

theorem platform_none_is_treated_as_available:
  "getUnavailable ast D = Some Avail \<Longrightarrow> Platform Avail = none \<Longrightarrow>
     \<not> isUnavailableOrObsoleted ast D
     \<and> walkToDeclPre ast vis w D = classifyAndRecord ast vis w D"
  by (simp add: walkToDeclPre_def isUnavailableOrObsoleted_def)

theorem platform_none_is_treated_as_available_witness:
  "getUnavailable exampleAST (DeclPtr 8)
     = Some \<lparr>Platform = none, getVersionAvailability = Unavailable\<rparr>
   \<and> \<not> isUnavailableOrObsoleted exampleAST (DeclPtr 8)
   \<and> walkToDeclPre exampleAST exampleVisibility exampleWalker (DeclPtr 8)
       = Some (Inr (True,
           onGraph MainGraphRef (recordNode (Symbol MainGraphRef (DeclPtr 8) None))
             exampleWalker))"
proof -
  have attr: "getUnavailable exampleAST (DeclPtr 8)
                = Some \<lparr>Platform = none, getVersionAvailability = Unavailable\<rparr>"
    by (simp add: example_defs)
  have visit: "classifyAndRecord exampleAST exampleVisibility exampleWalker (DeclPtr 8)
       = Some (Inr (True,
           onGraph MainGraphRef (recordNode (Symbol MainGraphRef (DeclPtr 8) None))
             exampleWalker))"
    by (simp add: classifyAndRecord_def walkValueDecl_def resolution_defs example_defs)
  from platform_none_is_treated_as_available [OF attr, of exampleVisibility exampleWalker]
    attr visit
  show ?thesis by simp
qed

text \<open>
  C10. An inherited entry whose type did not resolve (a null type) is skipped silently, in
  the loop that seeds the pending vectors from the extension and in the loop over a popped
  protocol's own inherited entries: it adds nothing to either pending vector and does not
  abort, wherever it stands in the list.
\<close>

theorem null_inherited_type_is_skipped:
  "seedUnexpanded ast (xs @ None # ys) U = seedUnexpanded ast (xs @ ys) U
   \<and> expandInherited ast (xs @ None # ys) U = expandInherited ast (xs @ ys) U
   \<and> seedUnexpanded ast [None] U = Inr U
   \<and> expandInherited ast [None] U = Inr U
   \<and> expandConformances ast (xs @ None # ys) = expandConformances ast (xs @ ys)
   \<and> (UnexpandedCompositions = [] \<and> getInherited ast (last UnexpandedProtocols) = xs @ None # ys
      \<longrightarrow> expandStep ast (Protocols, UnexpandedProtocols, UnexpandedCompositions)
          = (case expandInherited ast (xs @ ys)
                    (butlast UnexpandedProtocols, UnexpandedCompositions) of
               Inl e \<Rightarrow> Inl e
             | Inr U' \<Rightarrow> Inr (Protocols @ [last UnexpandedProtocols], U')))"
proof -
  have seed: "seedUnexpanded ast (xs @ None # ys) V = seedUnexpanded ast (xs @ ys) V" for V
    by (induction ast xs V rule: seedUnexpanded.induct) (simp_all split: sum.splits)
  have inh: "expandInherited ast (xs @ None # ys) V = expandInherited ast (xs @ ys) V" for V
    by (induction ast xs V rule: expandInherited.induct) (simp_all split: sum.splits)
  have "seedUnexpanded ast [None] U = Inr U" "expandInherited ast [None] U = Inr U"
    by simp_all
  moreover have "expandConformances ast (xs @ None # ys) = expandConformances ast (xs @ ys)"
    by (simp add: expandConformances_def seed)
  moreover have "UnexpandedCompositions = []
      \<and> getInherited ast (last UnexpandedProtocols) = xs @ None # ys
      \<longrightarrow> expandStep ast (Protocols, UnexpandedProtocols, UnexpandedCompositions)
          = (case expandInherited ast (xs @ ys)
                    (butlast UnexpandedProtocols, UnexpandedCompositions) of
               Inl e \<Rightarrow> Inl e
             | Inr U' \<Rightarrow> Inr (Protocols @ [last UnexpandedProtocols], U'))"
    by (simp add: expandStep_def inh)
  ultimately show ?thesis using seed inh by simp
qed

theorem null_inherited_type_is_skipped_witness:
  "getInherited exampleAST (DeclPtr 11) = [None, Some (TypePtr 3)]
   \<and> expandStep exampleAST ([], [DeclPtr 11], []) = Inr ([DeclPtr 11], [DeclPtr 5], [])"
proof -
  have h: "getInherited exampleAST (last [DeclPtr 11]) = [] @ None # [Some (TypePtr 3)]"
    by (simp add: example_defs)
  have "expandInherited exampleAST [Some (TypePtr 3)] ([], []) = Inr ([DeclPtr 5], [])"
    by (simp add: HandleProtocolOrComposition_def asProtocolDecl_def example_defs)
  with h null_inherited_type_is_skipped
         [of exampleAST "[]" "[Some (TypePtr 3)]" "([], [])" "[]" "[DeclPtr 11]" "[]"]
  show ?thesis by simp
qed

text \<open>
  C1. Graph resolution applies its checks in a fixed order. With \<open>Mo\<close> the owning module that
  the climb finds: when \<open>Mo\<close> equals, ignoring foreignness, the module under inspection or the
  main graph's declaring module, the main graph is returned whatever the re-export
  configuration holds; when both local checks fail and a re-export check holds, the main graph
  is returned; when both fail and every re-export check fails, the extension graph keyed
  by the name of \<open>Mo\<close> is returned; and an extension graph is returned in no other case.
\<close>

theorem getModuleSymbolGraph_resolution_order:
  assumes climb: "owningModule ast (getModuleContext ast D) (getDeclContext ast D) None
                    = Some (Inr (Mo, EN))"
  shows
    "((areModulesEqual ast (M w) Mo True
        \<or> (\<exists>declaring. DeclaringModule (MainGraph w) = Some declaring
              \<and> areModulesEqual ast declaring Mo True))
      \<longrightarrow> (\<forall>X Q. getModuleSymbolGraph ast
                    (w\<lparr>ExportedImportedModules := X, QualifiedExportedImports := Q\<rparr>) D
                  = Some (Inr (MainGraphRef,
                      w\<lparr>ExportedImportedModules := X, QualifiedExportedImports := Q\<rparr>))))
     \<and> (\<not> areModulesEqual ast (M w) Mo True
        \<and> (\<forall>declaring. DeclaringModule (MainGraph w) = Some declaring
              \<longrightarrow> \<not> areModulesEqual ast declaring Mo True)
        \<longrightarrow>
          ((isExportedImportedModule ast w Mo \<or> isQualifiedExportedImport w D
             \<or> (\<exists>nominal. EN = Some nominal \<and> isFromExportedImportedModule ast w nominal)
             \<or> (EN = None \<and> isConsideredExportedImported ast w D = Some True)
            \<longrightarrow> getModuleSymbolGraph ast w D = Some (Inr (MainGraphRef, w)))
           \<and> (\<not> isExportedImportedModule ast w Mo \<and> \<not> isQualifiedExportedImport w D
              \<and> (\<forall>nominal. EN = Some nominal
                    \<longrightarrow> \<not> isFromExportedImportedModule ast w nominal)
              \<and> (EN = None \<longrightarrow> isConsideredExportedImported ast w D = Some False)
            \<longrightarrow> getModuleSymbolGraph ast w D = Some (Inr (findOrCreateGraph ast w Mo))
                \<and> fst (findOrCreateGraph ast w Mo) = ExtendedGraphRef (getNameStr ast Mo))))
     \<and> (\<forall>key w'. getModuleSymbolGraph ast w D = Some (Inr (ExtendedGraphRef key, w'))
          \<longrightarrow> \<not> areModulesEqual ast (M w) Mo True
              \<and> (\<forall>declaring. DeclaringModule (MainGraph w) = Some declaring
                    \<longrightarrow> \<not> areModulesEqual ast declaring Mo True)
              \<and> \<not> isExportedImportedModule ast w Mo \<and> \<not> isQualifiedExportedImport w D
              \<and> (\<forall>nominal. EN = Some nominal
                    \<longrightarrow> \<not> isFromExportedImportedModule ast w nominal)
              \<and> (EN = None \<longrightarrow> isConsideredExportedImported ast w D = Some False)
              \<and> key = getNameStr ast Mo)"
proof (intro conjI impI allI)
  fix X Q
  assume "areModulesEqual ast (M w) Mo True
        \<or> (\<exists>declaring. DeclaringModule (MainGraph w) = Some declaring
              \<and> areModulesEqual ast declaring Mo True)"
  then have "isLocalModule ast (w\<lparr>ExportedImportedModules := X, QualifiedExportedImports := Q\<rparr>) Mo"
    by (auto simp: isLocalModule_def)
  then show "getModuleSymbolGraph ast
                    (w\<lparr>ExportedImportedModules := X, QualifiedExportedImports := Q\<rparr>) D
                  = Some (Inr (MainGraphRef,
                      w\<lparr>ExportedImportedModules := X, QualifiedExportedImports := Q\<rparr>))"
    using climb by (simp add: getModuleSymbolGraph_def)
next
  assume "\<not> areModulesEqual ast (M w) Mo True
        \<and> (\<forall>declaring. DeclaringModule (MainGraph w) = Some declaring
              \<longrightarrow> \<not> areModulesEqual ast declaring Mo True)"
  then have nl: "\<not> isLocalModule ast w Mo"
    by (auto simp: isLocalModule_def split: option.splits)
  {
    assume "isExportedImportedModule ast w Mo \<or> isQualifiedExportedImport w D
             \<or> (\<exists>nominal. EN = Some nominal \<and> isFromExportedImportedModule ast w nominal)
             \<or> (EN = None \<and> isConsideredExportedImported ast w D = Some True)"
    then have "isReExported ast w D Mo EN = Some True"
      by (auto simp: isReExported_def)
    then show "getModuleSymbolGraph ast w D = Some (Inr (MainGraphRef, w))"
      using climb nl by (simp add: getModuleSymbolGraph_def)
  }
  {
    assume "\<not> isExportedImportedModule ast w Mo \<and> \<not> isQualifiedExportedImport w D
              \<and> (\<forall>nominal. EN = Some nominal
                    \<longrightarrow> \<not> isFromExportedImportedModule ast w nominal)
              \<and> (EN = None \<longrightarrow> isConsideredExportedImported ast w D = Some False)"
    then have "isReExported ast w D Mo EN = Some False"
      by (auto simp: isReExported_def split: option.splits)
    then show "getModuleSymbolGraph ast w D = Some (Inr (findOrCreateGraph ast w Mo))"
      using climb nl by (simp add: getModuleSymbolGraph_def)
    show "fst (findOrCreateGraph ast w Mo) = ExtendedGraphRef (getNameStr ast Mo)"
      by (simp add: findOrCreateGraph_def split: option.splits)
  }
next
  fix key w'
  assume r: "getModuleSymbolGraph ast w D = Some (Inr (ExtendedGraphRef key, w'))"
  from r climb have nl: "\<not> isLocalModule ast w Mo"
    by (auto simp: getModuleSymbolGraph_def)
  from r climb nl have re: "isReExported ast w D Mo EN = Some False"
    by (auto simp: getModuleSymbolGraph_def split: option.splits bool.splits)
  from r climb nl re have k: "findOrCreateGraph ast w Mo = (ExtendedGraphRef key, w')"
    by (simp add: getModuleSymbolGraph_def)
  from nl show "\<not> areModulesEqual ast (M w) Mo True"
    by (auto simp: isLocalModule_def)
  from nl show "\<And>declaring. DeclaringModule (MainGraph w) = Some declaring
                    \<Longrightarrow> \<not> areModulesEqual ast declaring Mo True"
    by (auto simp: isLocalModule_def split: if_splits)
  from re show "\<not> isExportedImportedModule ast w Mo" "\<not> isQualifiedExportedImport w D"
    by (auto simp: isReExported_def split: if_splits)
  from re show "\<And>nominal. EN = Some nominal
                    \<Longrightarrow> \<not> isFromExportedImportedModule ast w nominal"
    by (auto simp: isReExported_def split: if_splits)
  from re show "EN = None \<Longrightarrow> isConsideredExportedImported ast w D = Some False"
    by (auto simp: isReExported_def split: if_splits)
  from k show "key = getNameStr ast Mo"
    by (auto simp: findOrCreateGraph_def split: option.splits)
qed


theorem getModuleSymbolGraph_resolution_order_witness:
  "getModuleSymbolGraph exampleAST
       (exampleWalker\<lparr>ExportedImportedModules := {ModulePtr 0}, QualifiedExportedImports := []\<rparr>)
       (DeclPtr 3)
     = Some (Inr (MainGraphRef,
         exampleWalker\<lparr>ExportedImportedModules := {ModulePtr 0},
                        QualifiedExportedImports := []\<rparr>))
   \<and> getModuleSymbolGraph exampleAST exampleWalker (DeclPtr 6)
       = Some (Inr (MainGraphRef, exampleWalker))
   \<and> getModuleSymbolGraph exampleAST exampleWalker (DeclPtr 1)
       = Some (Inr (findOrCreateGraph exampleAST exampleWalker (ModulePtr 1)))
   \<and> fst (findOrCreateGraph exampleAST exampleWalker (ModulePtr 1)) = ExtendedGraphRef ''Foreign''"
proof -
  have local: "owningModule exampleAST (getModuleContext exampleAST (DeclPtr 3))
                 (getDeclContext exampleAST (DeclPtr 3)) None
               = Some (Inr (ModulePtr 0, None))"
    by (simp add: example_defs owningModule_Some owningModule_None)
  have vendored: "owningModule exampleAST (getModuleContext exampleAST (DeclPtr 6))
                    (getDeclContext exampleAST (DeclPtr 6)) None
                  = Some (Inr (ModulePtr 2, None))"
    by (simp add: example_defs owningModule_Some owningModule_None)
  have foreign: "owningModule exampleAST (getModuleContext exampleAST (DeclPtr 1))
                   (getDeclContext exampleAST (DeclPtr 1)) None
                 = Some (Inr (ModulePtr 1, None))"
    by (simp add: example_defs owningModule_Some owningModule_None)
  have considered: "isConsideredExportedImported exampleAST exampleWalker (DeclPtr 1) = Some False"
    by (simp add: resolution_defs example_defs)
  note order = getModuleSymbolGraph_resolution_order
  have isLocal: "areModulesEqual exampleAST (M exampleWalker) (ModulePtr 0) True
        \<or> (\<exists>declaring. DeclaringModule (MainGraph exampleWalker) = Some declaring
              \<and> areModulesEqual exampleAST declaring (ModulePtr 0) True)"
    by (simp add: areModulesEqual_def example_defs)
  have first: "getModuleSymbolGraph exampleAST
       (exampleWalker\<lparr>ExportedImportedModules := {ModulePtr 0}, QualifiedExportedImports := []\<rparr>)
       (DeclPtr 3)
     = Some (Inr (MainGraphRef,
         exampleWalker\<lparr>ExportedImportedModules := {ModulePtr 0},
                        QualifiedExportedImports := []\<rparr>))"
    by (rule order [OF local, of exampleWalker, THEN conjunct1, THEN mp, OF isLocal,
          THEN spec, THEN spec])
  have notLocal2: "\<not> areModulesEqual exampleAST (M exampleWalker) (ModulePtr 2) True
        \<and> (\<forall>declaring. DeclaringModule (MainGraph exampleWalker) = Some declaring
              \<longrightarrow> \<not> areModulesEqual exampleAST declaring (ModulePtr 2) True)"
    by (simp add: areModulesEqual_def example_defs)
  have reExported: "isExportedImportedModule exampleAST exampleWalker (ModulePtr 2)
             \<or> isQualifiedExportedImport exampleWalker (DeclPtr 6)
             \<or> (\<exists>nominal. None = Some nominal
                   \<and> isFromExportedImportedModule exampleAST exampleWalker nominal)
             \<or> ((None :: Decl option) = None
                   \<and> isConsideredExportedImported exampleAST exampleWalker (DeclPtr 6) = Some True)"
    by (simp add: areModulesEqual_def isExportedImportedModule_def example_defs)
  have second: "getModuleSymbolGraph exampleAST exampleWalker (DeclPtr 6)
       = Some (Inr (MainGraphRef, exampleWalker))"
    by (rule order [OF vendored, of exampleWalker, THEN conjunct2, THEN conjunct1, THEN mp,
          OF notLocal2, THEN conjunct1, THEN mp, OF reExported])
  have notLocal1: "\<not> areModulesEqual exampleAST (M exampleWalker) (ModulePtr 1) True
        \<and> (\<forall>declaring. DeclaringModule (MainGraph exampleWalker) = Some declaring
              \<longrightarrow> \<not> areModulesEqual exampleAST declaring (ModulePtr 1) True)"
    by (simp add: areModulesEqual_def example_defs)
  have notReExported: "\<not> isExportedImportedModule exampleAST exampleWalker (ModulePtr 1)
        \<and> \<not> isQualifiedExportedImport exampleWalker (DeclPtr 1)
        \<and> (\<forall>nominal. None = Some nominal
              \<longrightarrow> \<not> isFromExportedImportedModule exampleAST exampleWalker nominal)
        \<and> ((None :: Decl option) = None
              \<longrightarrow> isConsideredExportedImported exampleAST exampleWalker (DeclPtr 1) = Some False)"
    using considered
    by (simp add: areModulesEqual_def isExportedImportedModule_def
          isQualifiedExportedImport_def example_defs)
  have third: "getModuleSymbolGraph exampleAST exampleWalker (DeclPtr 1)
       = Some (Inr (findOrCreateGraph exampleAST exampleWalker (ModulePtr 1)))
     \<and> fst (findOrCreateGraph exampleAST exampleWalker (ModulePtr 1))
         = ExtendedGraphRef (getNameStr exampleAST (ModulePtr 1))"
    by (rule order [OF foreign, of exampleWalker, THEN conjunct2, THEN conjunct1, THEN mp,
          OF notLocal1, THEN conjunct2, THEN mp, OF notReExported])
  have "getNameStr exampleAST (ModulePtr 1) = ''Foreign''"
    by (simp add: example_defs)
  with first second third show ?thesis by simp
qed

text \<open>
  C7. On a finite, acyclic inheritance and composition graph the worklist loop ends from every
  state: after finitely many iterations it either leaves with both pending vectors empty or
  aborts in an iteration; so the expansion of any list of stated entries returns.
\<close>

theorem conformance_expansion_terminates:
  assumes "finite (inheritanceGraph ast)" and "acyclic (inheritanceGraph ast)"
  shows "(\<exists>n s'. (s, s') \<in> expandIterations ast ^^ n
            \<and> (expandLoop ast s = Some (Inr s') \<and> fst (snd s') = [] \<and> snd (snd s') = []
               \<or> expandLoop ast s = Some (Inl Abort) \<and> isPending s'
                   \<and> expandStep ast s' = Inl Abort))
         \<and> (\<exists>r. expandConformances ast Inherited = Some r)"
proof -
  have wf: "wf (inheritanceGraph ast)"
    using assms by (rule finite_acyclic_wf)
  have loop: "\<exists>n s'. (s, s') \<in> expandIterations ast ^^ n
            \<and> (expandLoop ast s = Some (Inr s') \<and> fst (snd s') = [] \<and> snd (snd s') = []
               \<or> expandLoop ast s = Some (Inl Abort) \<and> isPending s'
                   \<and> expandStep ast s' = Inl Abort)" for s
    using expandLoop_runs [OF wf, of s] by (auto simp: isPending_def)
  have "\<exists>r. expandConformances ast Inherited = Some r"
  proof (cases "seedUnexpanded ast Inherited ([], [])")
    case (Inl e)
    then show ?thesis by (simp add: expandConformances_def)
  next
    case (Inr U)
    from loop [of "([], U)"] obtain r where "expandLoop ast ([], U) = Some r" by blast
    with Inr show ?thesis
      by (cases r) (simp_all add: expandConformances_def)
  qed
  with loop show ?thesis by blast
qed

theorem conformance_expansion_terminates_witness:
  "finite (inheritanceGraph exampleAST) \<and> acyclic (inheritanceGraph exampleAST)
   \<and> (\<exists>n s'. (([], [], [CompositionPtr 0]), s') \<in> expandIterations exampleAST ^^ n
          \<and> expandLoop exampleAST ([], [], [CompositionPtr 0]) = Some (Inr s')
          \<and> s' = ([DeclPtr 4, DeclPtr 5, DeclPtr 3], [], []))"
proof -
  have fin: "finite (inheritanceGraph exampleAST)"
    using example_graph by (rule finite_subset) simp
  have acy: "acyclic (inheritanceGraph exampleAST)"
    using example_graph_wf by (rule wf_acyclic)
  have run: "expandLoop exampleAST ([], [], [CompositionPtr 0])
               = Some (Inr ([DeclPtr 4, DeclPtr 5, DeclPtr 3], [], []))"
    by (simp add: expandLoop_pending expandLoop_done isPending_def expandStep_def
          HandleProtocolOrComposition_def asProtocolDecl_def example_defs)
  from conformance_expansion_terminates [OF fin acy, of "([], [], [CompositionPtr 0])"]
  obtain n s' where "(([], [], [CompositionPtr 0]), s') \<in> expandIterations exampleAST ^^ n"
    and "expandLoop exampleAST ([], [], [CompositionPtr 0]) = Some (Inr s')
         \<or> expandLoop exampleAST ([], [], [CompositionPtr 0]) = Some (Inl Abort)"
    by blast
  with run fin acy show ?thesis by auto
qed

text \<open>
  C8. A type handed to the classification that is neither a protocol nor a composition
  aborts the run: the classification itself aborts, so does the expansion when such a type
  is stated on the extension or is classified in any iteration the worklist loop reaches, and
  the visit of the extension ends in the abort instead of skipping the type or going on.
\<close>

theorem defect_type_aborts:
  assumes "asProtocolDecl ast (getAnyNominal ast Ty) = None"
    and "getAsProtocolCompositionType ast Ty = None"
  shows "HandleProtocolOrComposition ast Ty U = Inl Abort
     \<and> (Some Ty \<in> set Inherited \<longrightarrow> expandConformances ast Inherited = Some (Inl Abort))
     \<and> ((s, s') \<in> (expandIterations ast)\<^sup>* \<and> isPending s' \<and> Ty \<in> set (classifiedNext ast s')
          \<longrightarrow> expandLoop ast s = Some (Inl Abort))
     \<and> (seedUnexpanded ast Inherited ([], []) = Inr U0
          \<and> (([], U0), s') \<in> (expandIterations ast)\<^sup>* \<and> isPending s'
          \<and> Ty \<in> set (classifiedNext ast s')
          \<longrightarrow> expandConformances ast Inherited = Some (Inl Abort))
     \<and> (getKind ast Ext = Extension \<and> \<not> isUnavailableOrObsoleted ast Ext
          \<and> getModuleSymbolGraph ast w Ext = Some (Inr (SG0, w1))
          \<and> getExtendedNominal ast Ext = Some Nominal
          \<and> getModuleSymbolGraph ast w1 Nominal = Some (Inr (SG, w2))
          \<and> \<not> isImplicitlyPrivate vis SG Ext \<and> \<not> isUnavailableOrObsoleted ast Nominal
          \<and> (Some Ty \<in> set (getInherited ast Ext)
              \<or> (\<exists>V t. seedUnexpanded ast (getInherited ast Ext) ([], []) = Inr V
                    \<and> (([], V), t) \<in> (expandIterations ast)\<^sup>* \<and> isPending t
                    \<and> Ty \<in> set (classifiedNext ast t)))
          \<longrightarrow> walkToDeclPre ast vis w Ext = Some (Inl Abort))"
proof -
  have stated: "expandConformances ast entries = Some (Inl Abort)"
    if "Some Ty \<in> set entries" for entries
    using seedUnexpanded_defect [OF that assms] by (simp add: expandConformances_def)
  have loop: "expandLoop ast a = Some (Inl Abort)"
    if "(a, b) \<in> (expandIterations ast)\<^sup>*" "isPending b" "Ty \<in> set (classifiedNext ast b)"
    for a b
  proof -
    have "expandLoop ast b = Some (Inl Abort)"
      using expandStep_defect [OF that(2,3) assms] that(2) by (simp add: expandLoop_pending)
    with expandLoop_iterations [OF that(1)] show ?thesis by simp
  qed
  have reached: "expandConformances ast entries = Some (Inl Abort)"
    if "seedUnexpanded ast entries ([], []) = Inr V"
       "(([], V), b) \<in> (expandIterations ast)\<^sup>*" "isPending b"
       "Ty \<in> set (classifiedNext ast b)"
    for entries V b
    using loop [OF that(2,3,4)] that(1) by (simp add: expandConformances_def)
  have walk: "walkToDeclPre ast vis w Ext = Some (Inl Abort)"
    if "getKind ast Ext = Extension \<and> \<not> isUnavailableOrObsoleted ast Ext
          \<and> getModuleSymbolGraph ast w Ext = Some (Inr (SG0, w1))
          \<and> getExtendedNominal ast Ext = Some Nominal
          \<and> getModuleSymbolGraph ast w1 Nominal = Some (Inr (SG, w2))
          \<and> \<not> isImplicitlyPrivate vis SG Ext \<and> \<not> isUnavailableOrObsoleted ast Nominal
          \<and> (Some Ty \<in> set (getInherited ast Ext)
              \<or> (\<exists>V t. seedUnexpanded ast (getInherited ast Ext) ([], []) = Inr V
                    \<and> (([], V), t) \<in> (expandIterations ast)\<^sup>* \<and> isPending t
                    \<and> Ty \<in> set (classifiedNext ast t)))"
  proof -
    from that have "expandConformances ast (getInherited ast Ext) = Some (Inl Abort)"
      using stated reached by blast
    with that show ?thesis
      by (intro walkToDeclPre_expansion_aborts [where SG = SG and Nominal = Nominal]) auto
  qed
  show ?thesis
    using handle_defect [OF assms] stated loop reached walk by blast
qed

theorem defect_type_aborts_witness:
  "asProtocolDecl exampleAST (getAnyNominal exampleAST (TypePtr 4)) = None
   \<and> getAsProtocolCompositionType exampleAST (TypePtr 4) = None
   \<and> HandleProtocolOrComposition exampleAST (TypePtr 4) ([], []) = Inl Abort
   \<and> walkToDeclPre exampleAST exampleVisibility exampleWalker (DeclPtr 10) = Some (Inl Abort)
   \<and> walkToDeclPre exampleAST exampleVisibility exampleWalker (DeclPtr 13) = Some (Inl Abort)"
proof -
  let ?w2 = "exampleWalker\<lparr>ExtendedModuleGraphs :=
               [''Foreign'' \<mapsto> newSymbolGraph (ModulePtr 0) (Some (ModulePtr 1)) None]\<rparr>"
  have d1: "asProtocolDecl exampleAST (getAnyNominal exampleAST (TypePtr 4)) = None"
    by (simp add: asProtocolDecl_def example_defs)
  have d2: "getAsProtocolCompositionType exampleAST (TypePtr 4) = None"
    by (simp add: example_defs)
  note aborts = defect_type_aborts [OF d1 d2]
  have handle: "HandleProtocolOrComposition exampleAST (TypePtr 4) ([], []) = Inl Abort"
    using aborts by (rule conjunct1)
  have reach10: "getKind exampleAST (DeclPtr 10) = Extension
      \<and> \<not> isUnavailableOrObsoleted exampleAST (DeclPtr 10)
      \<and> getModuleSymbolGraph exampleAST exampleWalker (DeclPtr 10)
          = Some (Inr (MainGraphRef, exampleWalker))
      \<and> getExtendedNominal exampleAST (DeclPtr 10) = Some (DeclPtr 1)
      \<and> getModuleSymbolGraph exampleAST exampleWalker (DeclPtr 1)
          = Some (Inr (ExtendedGraphRef ''Foreign'', ?w2))
      \<and> \<not> isImplicitlyPrivate exampleVisibility (ExtendedGraphRef ''Foreign'') (DeclPtr 10)
      \<and> \<not> isUnavailableOrObsoleted exampleAST (DeclPtr 1)
      \<and> (Some (TypePtr 4) \<in> set (getInherited exampleAST (DeclPtr 10))
          \<or> (\<exists>V t. seedUnexpanded exampleAST (getInherited exampleAST (DeclPtr 10)) ([], []) = Inr V
                \<and> (([], V), t) \<in> (expandIterations exampleAST)\<^sup>* \<and> isPending t
                \<and> TypePtr 4 \<in> set (classifiedNext exampleAST t)))"
  proof -
    have "getKind exampleAST (DeclPtr 10) = Extension
      \<and> \<not> isUnavailableOrObsoleted exampleAST (DeclPtr 10)
      \<and> getExtendedNominal exampleAST (DeclPtr 10) = Some (DeclPtr 1)
      \<and> \<not> isImplicitlyPrivate exampleVisibility (ExtendedGraphRef ''Foreign'') (DeclPtr 10)
      \<and> \<not> isUnavailableOrObsoleted exampleAST (DeclPtr 1)
      \<and> Some (TypePtr 4) \<in> set (getInherited exampleAST (DeclPtr 10))"
      by (simp add: isUnavailableOrObsoleted_def example_defs)
    moreover have "getModuleSymbolGraph exampleAST exampleWalker (DeclPtr 10)
          = Some (Inr (MainGraphRef, exampleWalker))"
      by (rule example_graph_of_local) (simp_all add: example_defs)
    ultimately show ?thesis using example_graph_of_T by blast
  qed
  have stated: "walkToDeclPre exampleAST exampleVisibility exampleWalker (DeclPtr 10)
                  = Some (Inl Abort)"
    by (rule aborts [THEN conjunct2, THEN conjunct2, THEN conjunct2, THEN conjunct2, THEN mp,
          OF reach10])
  have seed: "seedUnexpanded exampleAST (getInherited exampleAST (DeclPtr 13)) ([], [])
                = Inr ([DeclPtr 12], [])"
    by (simp add: HandleProtocolOrComposition_def asProtocolDecl_def example_defs)
  have popped: "isPending ([], [DeclPtr 12], [])
                \<and> TypePtr 4 \<in> set (classifiedNext exampleAST ([], [DeclPtr 12], []))"
    by (simp add: isPending_def classifiedNext_def example_defs)
  have reach13: "getKind exampleAST (DeclPtr 13) = Extension
      \<and> \<not> isUnavailableOrObsoleted exampleAST (DeclPtr 13)
      \<and> getModuleSymbolGraph exampleAST exampleWalker (DeclPtr 13)
          = Some (Inr (MainGraphRef, exampleWalker))
      \<and> getExtendedNominal exampleAST (DeclPtr 13) = Some (DeclPtr 1)
      \<and> getModuleSymbolGraph exampleAST exampleWalker (DeclPtr 1)
          = Some (Inr (ExtendedGraphRef ''Foreign'', ?w2))
      \<and> \<not> isImplicitlyPrivate exampleVisibility (ExtendedGraphRef ''Foreign'') (DeclPtr 13)
      \<and> \<not> isUnavailableOrObsoleted exampleAST (DeclPtr 1)
      \<and> (Some (TypePtr 4) \<in> set (getInherited exampleAST (DeclPtr 13))
          \<or> (\<exists>V t. seedUnexpanded exampleAST (getInherited exampleAST (DeclPtr 13)) ([], []) = Inr V
                \<and> (([], V), t) \<in> (expandIterations exampleAST)\<^sup>* \<and> isPending t
                \<and> TypePtr 4 \<in> set (classifiedNext exampleAST t)))"
  proof -
    have "\<exists>V t. seedUnexpanded exampleAST (getInherited exampleAST (DeclPtr 13)) ([], []) = Inr V
                \<and> (([], V), t) \<in> (expandIterations exampleAST)\<^sup>* \<and> isPending t
                \<and> TypePtr 4 \<in> set (classifiedNext exampleAST t)"
      using seed popped by blast
    moreover have "getKind exampleAST (DeclPtr 13) = Extension
      \<and> \<not> isUnavailableOrObsoleted exampleAST (DeclPtr 13)
      \<and> getExtendedNominal exampleAST (DeclPtr 13) = Some (DeclPtr 1)
      \<and> \<not> isImplicitlyPrivate exampleVisibility (ExtendedGraphRef ''Foreign'') (DeclPtr 13)
      \<and> \<not> isUnavailableOrObsoleted exampleAST (DeclPtr 1)"
      by (simp add: isUnavailableOrObsoleted_def example_defs)
    moreover have "getModuleSymbolGraph exampleAST exampleWalker (DeclPtr 13)
          = Some (Inr (MainGraphRef, exampleWalker))"
      by (rule example_graph_of_local) (simp_all add: example_defs)
    ultimately show ?thesis using example_graph_of_T by blast
  qed
  have reached: "walkToDeclPre exampleAST exampleVisibility exampleWalker (DeclPtr 13)
                  = Some (Inl Abort)"
    by (rule aborts [THEN conjunct2, THEN conjunct2, THEN conjunct2, THEN conjunct2, THEN mp,
          OF reach13])
  from d1 d2 handle stated reached show ?thesis by blast
qed

text \<open>
  C2. An extension states the composition \<open>A & B\<close>, where \<open>A\<close>, \<open>B\<close> and \<open>C\<close> are distinct
  protocols, \<open>B\<close> inherits \<open>C\<close>, and \<open>A\<close> and \<open>C\<close> inherit nothing. When the visit reaches the
  expansion, the expanded list holds exactly \<open>A\<close>, \<open>B\<close> and \<open>C\<close>, and the edges that the target's
  graph gains, apart from the extension-to edge of an extension recorded as a node, are
  exactly three conforms-to edges from the chosen source symbol, one to the main-graph symbol
  of each of \<open>A\<close>, \<open>B\<close> and \<open>C\<close>.
\<close>

theorem composite_conformance_is_expanded:
  assumes "getKind ast Ext = Extension" and "\<not> isUnavailableOrObsoleted ast Ext"
    and "getModuleSymbolGraph ast w Ext = Some (Inr (SG0, w1))"
    and "getExtendedNominal ast Ext = Some Nominal"
    and "getModuleSymbolGraph ast w1 Nominal = Some (Inr (SG, w2))"
    and "\<not> isImplicitlyPrivate vis SG Ext" and "\<not> isUnavailableOrObsoleted ast Nominal"
    and "getInherited ast Ext = [Some TyAB]"
    and "asProtocolDecl ast (getAnyNominal ast TyAB) = None"
    and "getAsProtocolCompositionType ast TyAB = Some Comp"
    and "getMembers ast Comp = [TyA, TyB]"
    and "getAnyNominal ast TyA = Some A" and "getKind ast A = Protocol"
    and "getInherited ast A = []"
    and "getAnyNominal ast TyB = Some B" and "getKind ast B = Protocol"
    and "getInherited ast B = [Some TyC]"
    and "getAnyNominal ast TyC = Some C" and "getKind ast C = Protocol"
    and "getInherited ast C = []"
    and "distinct [A, B, C]"
    and "Source = (if shouldBeRecordedAsExtension ast w2 Ext Nominal
                   then Symbol SG Ext None else Symbol SG Nominal None)"
  shows "\<exists>Protocols w' g g'.
           expandConformances ast (getInherited ast Ext) = Some (Inr Protocols)
         \<and> set Protocols = {A, B, C}
         \<and> walkToDeclPre ast vis w Ext = Some (Inr (True, w'))
         \<and> getGraph w2 SG = Some g \<and> getGraph w' SG = Some g'
         \<and> Edges g' = Edges g
             \<union> (if shouldBeRecordedAsExtension ast w2 Ext Nominal
                 then {Edge ExtensionTo Source (Symbol SG Nominal None)} else {})
             \<union> {Edge ConformsTo Source (Symbol MainGraphRef A None),
                 Edge ConformsTo Source (Symbol MainGraphRef B None),
                 Edge ConformsTo Source (Symbol MainGraphRef C None)}
         \<and> card {Edge ConformsTo Source (Symbol MainGraphRef A None),
                  Edge ConformsTo Source (Symbol MainGraphRef B None),
                  Edge ConformsTo Source (Symbol MainGraphRef C None)} = 3"
proof -
  have expanded: "expandConformances ast (getInherited ast Ext) = Some (Inr [B, C, A])"
    using assms(8-20)
    by (simp add: expandConformances_def HandleProtocolOrComposition_def asProtocolDecl_def
          expandLoop_pending expandLoop_done isPending_def expandStep_def)
  from walkExtension_returns [OF assms(4-7), of "[B, C, A]"] expanded
  obtain w' where ret: "walkExtension ast vis w1 Ext = Some (Inr (True, w'))" by blast
  have walk: "walkToDeclPre ast vis w Ext = Some (Inr (True, w'))"
    using walkToDeclPre_extension [OF assms(1-3)] ret by simp
  from walkExtension_graph [OF assms(4-7) ret] expanded assms(8)
  obtain g g' where "getGraph w2 SG = Some g" "getGraph w' SG = Some g'"
    "Edges g' = Edges g
         \<union> (if shouldBeRecordedAsExtension ast w2 Ext Nominal
             then {Edge ExtensionTo (Symbol SG Ext None) (Symbol SG Nominal None)} else {})
         \<union> (\<lambda>P. Edge ConformsTo
                   (if shouldBeRecordedAsExtension ast w2 Ext Nominal
                    then Symbol SG Ext None else Symbol SG Nominal None)
                   (Symbol MainGraphRef P None)) ` set [B, C, A]"
    by auto
  moreover have "card {Edge ConformsTo Source (Symbol MainGraphRef A None),
                  Edge ConformsTo Source (Symbol MainGraphRef B None),
                  Edge ConformsTo Source (Symbol MainGraphRef C None)} = 3"
    using assms(21) by simp
  ultimately show ?thesis
    using expanded walk assms(22)
    by (intro exI [of _ "[B, C, A]"] exI [of _ w'] exI [of _ g] exI [of _ g']) auto
qed

theorem composite_conformance_is_expanded_witness:
  "\<exists>w' g'. expandConformances exampleAST (getInherited exampleAST (DeclPtr 2))
              = Some (Inr [DeclPtr 4, DeclPtr 5, DeclPtr 3])
     \<and> walkToDeclPre exampleAST exampleVisibility exampleWalker (DeclPtr 2)
         = Some (Inr (True, w'))
     \<and> getGraph w' (ExtendedGraphRef ''Foreign'') = Some g'
     \<and> Edges g' =
         {Edge ExtensionTo (Symbol (ExtendedGraphRef ''Foreign'') (DeclPtr 2) None)
            (Symbol (ExtendedGraphRef ''Foreign'') (DeclPtr 1) None),
          Edge ConformsTo (Symbol (ExtendedGraphRef ''Foreign'') (DeclPtr 2) None)
            (Symbol MainGraphRef (DeclPtr 3) None),
          Edge ConformsTo (Symbol (ExtendedGraphRef ''Foreign'') (DeclPtr 2) None)
            (Symbol MainGraphRef (DeclPtr 4) None),
          Edge ConformsTo (Symbol (ExtendedGraphRef ''Foreign'') (DeclPtr 2) None)
            (Symbol MainGraphRef (DeclPtr 5) None)}"
proof -
  let ?w2 = "exampleWalker\<lparr>ExtendedModuleGraphs :=
               [''Foreign'' \<mapsto> newSymbolGraph (ModulePtr 0) (Some (ModulePtr 1)) None]\<rparr>"
  let ?Source = "Symbol (ExtendedGraphRef ''Foreign'') (DeclPtr 2) None"
  have should: "shouldBeRecordedAsExtension exampleAST ?w2 (DeclPtr 2) (DeclPtr 1)"
    by (simp add: shouldBeRecordedAsExtension_def example_defs)
  have stated:
    "getInherited exampleAST (DeclPtr 2) = [Some (TypePtr 0)]"
    "asProtocolDecl exampleAST (getAnyNominal exampleAST (TypePtr 0)) = None"
    "getAsProtocolCompositionType exampleAST (TypePtr 0) = Some (CompositionPtr 0)"
    "getMembers exampleAST (CompositionPtr 0) = [TypePtr 1, TypePtr 2]"
    "getAnyNominal exampleAST (TypePtr 1) = Some (DeclPtr 3)"
    "getKind exampleAST (DeclPtr 3) = Protocol"
    "getInherited exampleAST (DeclPtr 3) = []"
    "getAnyNominal exampleAST (TypePtr 2) = Some (DeclPtr 4)"
    "getKind exampleAST (DeclPtr 4) = Protocol"
    "getInherited exampleAST (DeclPtr 4) = [Some (TypePtr 3)]"
    "getAnyNominal exampleAST (TypePtr 3) = Some (DeclPtr 5)"
    "getKind exampleAST (DeclPtr 5) = Protocol"
    "getInherited exampleAST (DeclPtr 5) = []"
    "distinct [DeclPtr 3, DeclPtr 4, DeclPtr 5]"
    by (simp_all add: asProtocolDecl_def example_defs)
  have source: "?Source = (if shouldBeRecordedAsExtension exampleAST ?w2 (DeclPtr 2) (DeclPtr 1)
                   then Symbol (ExtendedGraphRef ''Foreign'') (DeclPtr 2) None
                   else Symbol (ExtendedGraphRef ''Foreign'') (DeclPtr 1) None)"
    using should by simp
  from composite_conformance_is_expanded
         [OF example_extension_of_T(1-4) example_graph_of_T example_extension_of_T(5,6)
             stated source]
  obtain Protocols w' g g' where
    r: "walkToDeclPre exampleAST exampleVisibility exampleWalker (DeclPtr 2)
          = Some (Inr (True, w'))"
      "getGraph ?w2 (ExtendedGraphRef ''Foreign'') = Some g"
      "getGraph w' (ExtendedGraphRef ''Foreign'') = Some g'"
      "Edges g' = Edges g
             \<union> (if shouldBeRecordedAsExtension exampleAST ?w2 (DeclPtr 2) (DeclPtr 1)
                 then {Edge ExtensionTo ?Source (Symbol (ExtendedGraphRef ''Foreign'') (DeclPtr 1) None)}
                 else {})
             \<union> {Edge ConformsTo ?Source (Symbol MainGraphRef (DeclPtr 3) None),
                 Edge ConformsTo ?Source (Symbol MainGraphRef (DeclPtr 4) None),
                 Edge ConformsTo ?Source (Symbol MainGraphRef (DeclPtr 5) None)}"
    by blast
  from r(2) have "Edges g = {}" by (auto simp: newSymbolGraph_def)
  with r should example_expansion show ?thesis by auto
qed

text \<open>
  C3, as amended. The extension is recorded as a node exactly when extension block symbols
  are enabled and the names of the extension's and of the extended type's declaring modules
  differ. When that holds, the extension is not effectively private for the graph resolved
  for the extended type \<open>T\<close>, \<open>T\<close> is not unavailable-or-obsoleted and the visit returns,
  that resolved graph gains exactly one node, the extension's symbol, and exactly one
  extension-to edge, from that symbol to the symbol of \<open>T\<close>. The resolved graph is the
  extension graph keyed by the name of the module that owns \<open>T\<close> unless a local-module check
  or a re-export check routes \<open>T\<close> to the main graph.
\<close>

theorem extension_node_is_recorded_in_resolved_graph:
  "shouldBeRecordedAsExtension ast w Ext Nominal
     = (EmitExtensionBlockSymbols w
        \<and> getNameStr ast (getModuleContext ast Ext)
            \<noteq> getNameStr ast (getModuleContext ast Nominal))
   \<and> (getKind ast Ext = Extension \<and> \<not> isUnavailableOrObsoleted ast Ext
        \<and> getModuleSymbolGraph ast w Ext = Some (Inr (SG0, w1))
        \<and> getExtendedNominal ast Ext = Some Nominal
        \<and> getModuleSymbolGraph ast w1 Nominal = Some (Inr (SG, w2))
        \<and> \<not> isImplicitlyPrivate vis SG Ext \<and> \<not> isUnavailableOrObsoleted ast Nominal
        \<and> shouldBeRecordedAsExtension ast w Ext Nominal
        \<and> walkToDeclPre ast vis w Ext = Some (Inr (descend, w'))
      \<longrightarrow> (\<exists>g g'. getGraph w2 SG = Some g \<and> getGraph w' SG = Some g' \<and> descend
             \<and> Nodes g' = insert (Symbol SG Ext None) (Nodes g)
             \<and> {e \<in> Edges g'. \<exists>a b. e = Edge ExtensionTo a b}
                 = insert (Edge ExtensionTo (Symbol SG Ext None) (Symbol SG Nominal None))
                     {e \<in> Edges g. \<exists>a b. e = Edge ExtensionTo a b}))
   \<and> (owningModule ast (getModuleContext ast Nominal) (getDeclContext ast Nominal) None
          = Some (Inr (Foreign, EN))
        \<and> getModuleSymbolGraph ast w1 Nominal = Some (Inr (SG, w2))
      \<longrightarrow> SG = (if isLocalModule ast w1 Foreign
                    \<or> isReExported ast w1 Nominal Foreign EN = Some True
                 then MainGraphRef else ExtendedGraphRef (getNameStr ast Foreign)))"
proof (intro conjI impI)
  show "shouldBeRecordedAsExtension ast w Ext Nominal
     = (EmitExtensionBlockSymbols w
        \<and> getNameStr ast (getModuleContext ast Ext)
            \<noteq> getNameStr ast (getModuleContext ast Nominal))"
    by (simp add: shouldBeRecordedAsExtension_def)
next
  assume h: "getKind ast Ext = Extension \<and> \<not> isUnavailableOrObsoleted ast Ext
        \<and> getModuleSymbolGraph ast w Ext = Some (Inr (SG0, w1))
        \<and> getExtendedNominal ast Ext = Some Nominal
        \<and> getModuleSymbolGraph ast w1 Nominal = Some (Inr (SG, w2))
        \<and> \<not> isImplicitlyPrivate vis SG Ext \<and> \<not> isUnavailableOrObsoleted ast Nominal
        \<and> shouldBeRecordedAsExtension ast w Ext Nominal
        \<and> walkToDeclPre ast vis w Ext = Some (Inr (descend, w'))"
  then have ret: "walkExtension ast vis w1 Ext = Some (Inr (descend, w'))"
    using walkToDeclPre_extension [of ast Ext w SG0 w1 vis] by simp
  have "EmitExtensionBlockSymbols w2 = EmitExtensionBlockSymbols w"
    using h getModuleSymbolGraph_config [of ast w Ext SG0 w1]
      getModuleSymbolGraph_config [of ast w1 Nominal SG w2] by simp
  with h have should: "shouldBeRecordedAsExtension ast w2 Ext Nominal"
    by (simp add: shouldBeRecordedAsExtension_def)
  from h have reach: "getExtendedNominal ast Ext = Some Nominal"
    "getModuleSymbolGraph ast w1 Nominal = Some (Inr (SG, w2))"
    "\<not> isImplicitlyPrivate vis SG Ext" "\<not> isUnavailableOrObsoleted ast Nominal"
    by simp_all
  from walkExtension_graph [OF reach ret] should
  obtain g g' Ps where g: "getGraph w2 SG = Some g" "getGraph w' SG = Some g'" "descend"
    and n: "Nodes g' = insert (Symbol SG Ext None) (Nodes g)"
    and e: "Edges g' = Edges g
         \<union> {Edge ExtensionTo (Symbol SG Ext None) (Symbol SG Nominal None)}
         \<union> (\<lambda>P. Edge ConformsTo (Symbol SG Ext None) (Symbol MainGraphRef P None)) ` set Ps"
    by auto
  have "{e \<in> Edges g'. \<exists>a b. e = Edge ExtensionTo a b}
                 = insert (Edge ExtensionTo (Symbol SG Ext None) (Symbol SG Nominal None))
                     {e \<in> Edges g. \<exists>a b. e = Edge ExtensionTo a b}"
    unfolding e by auto
  with g n show "\<exists>g g'. getGraph w2 SG = Some g \<and> getGraph w' SG = Some g' \<and> descend
             \<and> Nodes g' = insert (Symbol SG Ext None) (Nodes g)
             \<and> {e \<in> Edges g'. \<exists>a b. e = Edge ExtensionTo a b}
                 = insert (Edge ExtensionTo (Symbol SG Ext None) (Symbol SG Nominal None))
                     {e \<in> Edges g. \<exists>a b. e = Edge ExtensionTo a b}"
    by blast
next
  assume "owningModule ast (getModuleContext ast Nominal) (getDeclContext ast Nominal) None
          = Some (Inr (Foreign, EN))
        \<and> getModuleSymbolGraph ast w1 Nominal = Some (Inr (SG, w2))"
  then show "SG = (if isLocalModule ast w1 Foreign
                    \<or> isReExported ast w1 Nominal Foreign EN = Some True
                 then MainGraphRef else ExtendedGraphRef (getNameStr ast Foreign))"
    by (auto simp: getModuleSymbolGraph_def findOrCreateGraph_def
             split: if_splits option.splits bool.splits)
qed

theorem extension_node_is_recorded_in_resolved_graph_witness:
  "\<exists>w' g'. walkToDeclPre exampleAST exampleVisibility exampleWalker (DeclPtr 2)
              = Some (Inr (True, w'))
     \<and> getGraph w' (ExtendedGraphRef ''Foreign'') = Some g'
     \<and> Nodes g' = {Symbol (ExtendedGraphRef ''Foreign'') (DeclPtr 2) None}
     \<and> {e \<in> Edges g'. \<exists>a b. e = Edge ExtensionTo a b}
         = {Edge ExtensionTo (Symbol (ExtendedGraphRef ''Foreign'') (DeclPtr 2) None)
              (Symbol (ExtendedGraphRef ''Foreign'') (DeclPtr 1) None)}"
proof -
  let ?w2 = "exampleWalker\<lparr>ExtendedModuleGraphs :=
               [''Foreign'' \<mapsto> newSymbolGraph (ModulePtr 0) (Some (ModulePtr 1)) None]\<rparr>"
  from example_walk_extension_of_T obtain w' where
    walk: "walkToDeclPre exampleAST exampleVisibility exampleWalker (DeclPtr 2)
             = Some (Inr (True, w'))" by blast
  have reach: "getKind exampleAST (DeclPtr 2) = Extension
        \<and> \<not> isUnavailableOrObsoleted exampleAST (DeclPtr 2)
        \<and> getModuleSymbolGraph exampleAST exampleWalker (DeclPtr 2)
            = Some (Inr (MainGraphRef, exampleWalker))
        \<and> getExtendedNominal exampleAST (DeclPtr 2) = Some (DeclPtr 1)
        \<and> getModuleSymbolGraph exampleAST exampleWalker (DeclPtr 1)
            = Some (Inr (ExtendedGraphRef ''Foreign'', ?w2))
        \<and> \<not> isImplicitlyPrivate exampleVisibility (ExtendedGraphRef ''Foreign'') (DeclPtr 2)
        \<and> \<not> isUnavailableOrObsoleted exampleAST (DeclPtr 1)
        \<and> shouldBeRecordedAsExtension exampleAST exampleWalker (DeclPtr 2) (DeclPtr 1)
        \<and> walkToDeclPre exampleAST exampleVisibility exampleWalker (DeclPtr 2)
            = Some (Inr (True, w'))"
    using example_extension_of_T example_graph_of_T walk by blast
  from extension_node_is_recorded_in_resolved_graph
         [THEN conjunct2, THEN conjunct1, THEN mp, OF reach]
  obtain g g' where
    r: "getGraph ?w2 (ExtendedGraphRef ''Foreign'') = Some g"
      "getGraph w' (ExtendedGraphRef ''Foreign'') = Some g'"
      "Nodes g' = insert (Symbol (ExtendedGraphRef ''Foreign'') (DeclPtr 2) None) (Nodes g)"
      "{e \<in> Edges g'. \<exists>a b. e = Edge ExtensionTo a b}
         = insert (Edge ExtensionTo (Symbol (ExtendedGraphRef ''Foreign'') (DeclPtr 2) None)
                     (Symbol (ExtendedGraphRef ''Foreign'') (DeclPtr 1) None))
             {e \<in> Edges g. \<exists>a b. e = Edge ExtensionTo a b}"
    by blast
  from r(1) have "Nodes g = {}" "Edges g = {}" by (auto simp: newSymbolGraph_def)
  with r walk show ?thesis by auto
qed

text \<open>
  C3, as stated, fails where the module that owns the extended type is re-exported: module
  \<open>Local\<close> extends \<open>V\<close>, owned by \<open>Vendored\<close>, the extension is to be recorded as a node, and
  the node and its extension-to edge go to the main graph; no graph keyed \<open>Vendored\<close> exists
  before or after the visit.
\<close>

theorem extension_node_in_foreign_graph_counterexample:
  "shouldBeRecordedAsExtension exampleAST exampleWalker (DeclPtr 9) (DeclPtr 6)
   \<and> getNameStr exampleAST (getModuleContext exampleAST (DeclPtr 9)) = ''Local''
   \<and> owningModule exampleAST (getModuleContext exampleAST (DeclPtr 6))
        (getDeclContext exampleAST (DeclPtr 6)) None = Some (Inr (ModulePtr 2, None))
   \<and> getNameStr exampleAST (ModulePtr 2) = ''Vendored''
   \<and> ExtendedModuleGraphs exampleWalker ''Vendored'' = None
   \<and> walkToDeclPre exampleAST exampleVisibility exampleWalker (DeclPtr 9)
       = Some (Inr (True,
           exampleWalker\<lparr>MainGraph := (MainGraph exampleWalker)
             \<lparr>Nodes := {Symbol MainGraphRef (DeclPtr 9) None},
              Edges := {Edge ExtensionTo (Symbol MainGraphRef (DeclPtr 9) None)
                          (Symbol MainGraphRef (DeclPtr 6) None)}\<rparr>\<rparr>))
   \<and> ExtendedModuleGraphs
         (exampleWalker\<lparr>MainGraph := (MainGraph exampleWalker)
             \<lparr>Nodes := {Symbol MainGraphRef (DeclPtr 9) None},
              Edges := {Edge ExtensionTo (Symbol MainGraphRef (DeclPtr 9) None)
                          (Symbol MainGraphRef (DeclPtr 6) None)}\<rparr>\<rparr>) ''Vendored'' = None"
proof -
  have "getModuleSymbolGraph exampleAST exampleWalker (DeclPtr 9)
          = Some (Inr (MainGraphRef, exampleWalker))"
    by (rule example_graph_of_local) (simp_all add: example_defs)
  moreover have "getModuleSymbolGraph exampleAST exampleWalker (DeclPtr 6)
          = Some (Inr (MainGraphRef, exampleWalker))"
    by (simp add: resolution_defs example_defs)
  ultimately have "walkToDeclPre exampleAST exampleVisibility exampleWalker (DeclPtr 9)
       = Some (Inr (True,
           exampleWalker\<lparr>MainGraph := (MainGraph exampleWalker)
             \<lparr>Nodes := {Symbol MainGraphRef (DeclPtr 9) None},
              Edges := {Edge ExtensionTo (Symbol MainGraphRef (DeclPtr 9) None)
                          (Symbol MainGraphRef (DeclPtr 6) None)}\<rparr>\<rparr>))"
    by (simp add: walkToDeclPre_def classifyAndRecord_def walkExtension_def
          isUnavailableOrObsoleted_def shouldBeRecordedAsExtension_def recordNode_def
          recordEdge_def Let_def example_defs)
  moreover have "owningModule exampleAST (getModuleContext exampleAST (DeclPtr 6))
        (getDeclContext exampleAST (DeclPtr 6)) None = Some (Inr (ModulePtr 2, None))"
    by (simp add: example_defs owningModule_Some owningModule_None)
  moreover have "shouldBeRecordedAsExtension exampleAST exampleWalker (DeclPtr 9) (DeclPtr 6)
   \<and> getNameStr exampleAST (getModuleContext exampleAST (DeclPtr 9)) = ''Local''
   \<and> getNameStr exampleAST (ModulePtr 2) = ''Vendored''
   \<and> ExtendedModuleGraphs exampleWalker ''Vendored'' = None"
    by (simp add: shouldBeRecordedAsExtension_def example_defs)
  ultimately show ?thesis by simp
qed

end
